theory Spec2Isabelle
  imports Main
begin

section \<open>Regular expressions of the source\<close>

text \<open>
  The extension recognises its directives with JavaScript regular expressions. They are
  embedded as a small datatype and run by a backtracking matcher that returns, in the
  order in which the JavaScript engine tries them, every way a pattern can match at the
  start of a string. A character is a code unit below 256.

  \<^item> \<open>Space\<close> is \<open>\s\<close>, \<open>Dot\<close> is \<open>.\<close> (no line terminator), \<open>NoneOf cs\<close> is \<open>[^cs]\<close> and
    \<open>OneOf cs\<close> is \<open>[cs]\<close>;
  \<^item> \<open>Star\<close> and \<open>Plus\<close> are the greedy \<open>*\<close> and \<open>+\<close> (the source applies them to character
    classes only), \<open>Group n\<close> is the n-th capturing group, \<open>NegLook\<close> is \<open>(?!...)\<close>.
\<close>

abbreviation dq :: char where "dq \<equiv> CHR 0x22"
abbreviation sq :: char where "sq \<equiv> CHR 0x27"
abbreviation nl :: char where "nl \<equiv> CHR 0x0A"

datatype cls = Space | Dot | NoneOf string | OneOf string

fun in_cls :: "cls \<Rightarrow> char \<Rightarrow> bool" where
  "in_cls Space c = (c \<in> set [CHR 0x09, CHR 0x0A, CHR 0x0B, CHR 0x0C, CHR 0x0D, CHR 0x20, CHR 0xA0])"
| "in_cls Dot c = (c \<notin> set [CHR 0x0A, CHR 0x0D])"
| "in_cls (NoneOf cs) c = (c \<notin> set cs)"
| "in_cls (OneOf cs) c = (c \<in> set cs)"

datatype rx =
    Lit string
  | Cls cls
  | Star cls
  | Plus cls
  | Seq rx rx
  | Alt rx rx
  | Group nat rx
  | NegLook rx

type_synonym caps = "(nat \<times> string) list"

fun strip_prefix :: "string \<Rightarrow> string \<Rightarrow> string option" where
  "strip_prefix [] s = Some s"
| "strip_prefix (c # cs) [] = None"
| "strip_prefix (c # cs) (d # ds) = (if c = d then strip_prefix cs ds else None)"

text \<open>The remainders a greedy repetition of a class can leave: the longest run first.\<close>

fun star_cls :: "cls \<Rightarrow> string \<Rightarrow> string list" where
  "star_cls c [] = [[]]"
| "star_cls c (x # xs) = (if in_cls c x then star_cls c xs @ [x # xs] else [x # xs])"

text \<open>
  \<open>rmatch r (s, g)\<close>: the states (rest of the input, captures) after each match of \<open>r\<close> at
  the start of \<open>s\<close>, the engine's first choice first.
\<close>

fun rmatch :: "rx \<Rightarrow> string \<times> caps \<Rightarrow> (string \<times> caps) list" where
  "rmatch (Lit l) (s, g) = (case strip_prefix l s of None \<Rightarrow> [] | Some r \<Rightarrow> [(r, g)])"
| "rmatch (Cls c) (s, g) = (case s of [] \<Rightarrow> [] | x # xs \<Rightarrow> if in_cls c x then [(xs, g)] else [])"
| "rmatch (Star c) (s, g) = map (\<lambda>r. (r, g)) (star_cls c s)"
| "rmatch (Plus c) (s, g) = (case s of [] \<Rightarrow> [] | x # xs \<Rightarrow>
      if in_cls c x then map (\<lambda>r. (r, g)) (star_cls c xs) else [])"
| "rmatch (Seq a b) st = concat (map (rmatch b) (rmatch a st))"
| "rmatch (Alt a b) st = rmatch a st @ rmatch b st"
| "rmatch (Group n a) (s, g) =
     map (\<lambda>(r, g'). (r, (n, take (length s - length r) s) # g')) (rmatch a (s, g))"
| "rmatch (NegLook a) st = (if rmatch a st = [] then [st] else [])"

fun seqs :: "rx list \<Rightarrow> rx" where
  "seqs [] = Lit []"
| "seqs [r] = r"
| "seqs (r # rs) = Seq r (seqs rs)"

text \<open>
  A match object: \<open>match.index\<close>, \<open>match[0]\<close> and the captured groups; \<open>grp n m\<close> is
  \<open>match[n]\<close>. Every group of the patterns below takes part in every match, so the
  empty string for a group that did not is never read.
\<close>

record rxmatch =
  index :: nat
  matched :: string
  groups :: caps

definition grp :: "nat \<Rightarrow> rxmatch \<Rightarrow> string" where
  "grp n m = (case map_of (groups m) n of None \<Rightarrow> [] | Some s \<Rightarrow> s)"

text \<open>
  \<open>search r i s\<close> tries every start position of \<open>s\<close> (the text from index \<open>i\<close> on) from left to
  right, the end of the text included; \<open>exec r s lastIndex\<close> is \<open>regex.exec(s)\<close> of a pattern
  whose \<open>lastIndex\<close> is given (0 for a fresh pattern and for \<open>String.match\<close>).
\<close>

fun search :: "rx \<Rightarrow> nat \<Rightarrow> string \<Rightarrow> rxmatch option" where
  "search r i [] = (case rmatch r ([], []) of [] \<Rightarrow> None
      | (rest, g) # _ \<Rightarrow> Some \<lparr>index = i, matched = [], groups = g\<rparr>)"
| "search r i (c # cs) = (case rmatch r (c # cs, []) of [] \<Rightarrow> search r (Suc i) cs
      | (rest, g) # _ \<Rightarrow>
          Some \<lparr>index = i, matched = take (length (c # cs) - length rest) (c # cs), groups = g\<rparr>)"

definition exec :: "rx \<Rightarrow> string \<Rightarrow> nat \<Rightarrow> rxmatch option" where
  "exec r s lastIndex =
     (if length s < lastIndex then None else search r lastIndex (drop lastIndex s))"

text \<open>The least number of characters a match of a pattern consumes.\<close>

fun min_len :: "rx \<Rightarrow> nat" where
  "min_len (Lit l) = length l"
| "min_len (Cls c) = 1"
| "min_len (Star c) = 0"
| "min_len (Plus c) = 1"
| "min_len (Seq a b) = min_len a + min_len b"
| "min_len (Alt a b) = min (min_len a) (min_len b)"
| "min_len (Group n a) = min_len a"
| "min_len (NegLook a) = 0"

lemma strip_prefix_len: "strip_prefix l s = Some r \<Longrightarrow> length r + length l = length s"
  by (induction l s rule: strip_prefix.induct) (auto split: if_splits)

lemma star_cls_len: "r \<in> set (star_cls c s) \<Longrightarrow> length r \<le> length s"
  by (induction s) (auto split: if_splits)

lemma rmatch_len: "(r, g') \<in> set (rmatch a (s, g)) \<Longrightarrow> length r + min_len a \<le> length s"
proof (induction a arbitrary: r g' s g)
  case (Lit l)
  then show ?case by (auto split: option.splits dest: strip_prefix_len[OF sym])
next
  case (Cls c)
  then show ?case by (auto split: list.splits if_splits)
next
  case (Star c)
  then show ?case by (auto dest: star_cls_len)
next
  case (Plus c)
  then show ?case by (auto split: list.splits if_splits dest: star_cls_len)
next
  case (Seq a b)
  then obtain m gm where 1: "(m, gm) \<in> set (rmatch a (s, g))"
    and 2: "(r, g') \<in> set (rmatch b (m, gm))"
    by auto
  from Seq.IH(1)[OF 1] Seq.IH(2)[OF 2] show ?case by simp
next
  case (Alt a b)
  then show ?case by fastforce
next
  case (Group n a)
  then show ?case by auto
next
  case (NegLook a)
  then show ?case by (auto split: if_splits)
qed

lemma search_bounds:
  "search r i s = Some m \<Longrightarrow>
     i \<le> index m \<and> index m + length (matched m) \<le> i + length s \<and>
     min_len r \<le> length (matched m)"
proof (induction s arbitrary: i)
  case Nil
  then obtain rest g ps where 1: "rmatch r ([], []) = (rest, g) # ps"
    and 2: "m = \<lparr>index = i, matched = [], groups = g\<rparr>"
    by (auto split: list.splits)
  from 1 have "(rest, g) \<in> set (rmatch r ([], []))" by simp
  from rmatch_len[OF this] 2 show ?case by simp
next
  case (Cons c cs)
  show ?case
  proof (cases "rmatch r (c # cs, [])")
    case Nil
    with Cons.prems have "search r (Suc i) cs = Some m" by simp
    from Cons.IH[OF this] show ?thesis by simp
  next
    case (Cons p ps)
    obtain rest g where p: "p = (rest, g)" by (cases p)
    have "(rest, g) \<in> set (rmatch r (c # cs, []))" using Cons p by simp
    from rmatch_len[OF this] Cons.prems Cons p show ?thesis by auto
  qed
qed

text \<open>
  The source's scanning loops are \<open>while ((match = regex.exec(s)) !== null)\<close> over a
  pattern with the \<open>g\<close> flag: each round starts at \<open>lastIndex\<close>, the end of the match before.
  Such a loop ends because no pattern of the program can match the empty string; the
  type \<open>regex\<close> holds the patterns with that property, and \<open>matchAll\<close> is the list of the
  matches the loop sees, in the order it sees them.
\<close>

typedef regex = "{r. 0 < min_len r}"
  by (rule exI[of _ "Cls Dot"]) simp

setup_lifting type_definition_regex

function matchAll :: "regex \<Rightarrow> string \<Rightarrow> nat \<Rightarrow> rxmatch list" where
  "matchAll r s lastIndex = (case exec (Rep_regex r) s lastIndex of None \<Rightarrow> []
     | Some m \<Rightarrow> m # matchAll r s (index m + length (matched m)))"
  by pat_completeness auto
termination
proof (relation "measure (\<lambda>(r, s, i). Suc (length s) - i)")
  show "wf (measure (\<lambda>(r, s, i). Suc (length s) - i))" by simp
next
  fix r s lastIndex m
  assume "exec (Rep_regex r) s lastIndex = Some m"
  then have le: "lastIndex \<le> length s"
    and s: "search (Rep_regex r) lastIndex (drop lastIndex s) = Some m"
    by (auto simp: exec_def split: if_splits)
  from search_bounds[OF s] Rep_regex[of r] le
  show "((r, s, index m + length (matched m)), (r, s, lastIndex))
          \<in> measure (\<lambda>(r, s, i). Suc (length s) - i)"
    by auto
qed

declare matchAll.simps [simp del]

subsection \<open>The patterns of the program\<close>

text \<open>\<^verbatim>\<open>/<!--#include\s+(virtual|file)=\"([^\"]+)\"\s*-->/g\<close>\<close>

definition includeRx :: rx where
  \<open>includeRx = seqs [Lit ''<!--#include'', Plus Space,
     Group 1 (Alt (Lit ''virtual'') (Lit ''file'')), Lit ''="'',
     Group 2 (Plus (NoneOf ''"'')), Lit ''"'', Star Space, Lit ''-->'']\<close>

lift_definition includeRegex :: regex is includeRx
  by (simp add: includeRx_def)

text \<open>\<^verbatim>\<open>/<template[^>]+extends=[\"']([^\"']+)[\"'][^>]*>/\<close>\<close>

definition templateRx :: rx where
  \<open>templateRx = seqs [Lit ''<template'', Plus (NoneOf ''>''), Lit ''extends='',
     Cls (OneOf [dq, sq]), Group 1 (Plus (NoneOf [dq, sq])), Cls (OneOf [dq, sq]),
     Star (NoneOf ''>''), Lit ''>'']\<close>

lift_definition templateRegex :: regex is templateRx
  by (simp add: templateRx_def)

text \<open>\<^verbatim>\<open>/<template[^>]+slot=[\"']([^\"']+)[\"'][^>]*>/g\<close>\<close>

definition slotRx :: rx where
  \<open>slotRx = seqs [Lit ''<template'', Plus (NoneOf ''>''), Lit ''slot='',
     Cls (OneOf [dq, sq]), Group 1 (Plus (NoneOf [dq, sq])), Cls (OneOf [dq, sq]),
     Star (NoneOf ''>''), Lit ''>'']\<close>

lift_definition slotRegex :: regex is slotRx
  by (simp add: slotRx_def)

text \<open>\<^verbatim>\<open>/<slot[^>]+name=[\"']([^\"']+)[\"'][^>]*>/g\<close> (in \<open>extractSlots\<close>)\<close>

definition slotDeclRx :: rx where
  \<open>slotDeclRx = seqs [Lit ''<slot'', Plus (NoneOf ''>''), Lit ''name='',
     Cls (OneOf [dq, sq]), Group 1 (Plus (NoneOf [dq, sq])), Cls (OneOf [dq, sq]),
     Star (NoneOf ''>''), Lit ''>'']\<close>

lift_definition slotDeclRegex :: regex is slotDeclRx
  by (simp add: slotDeclRx_def)

text \<open>\<^verbatim>\<open>/<!--#include\s+(?!virtual=|file=)/g\<close>\<close>

definition malformedInclude :: rx where
  \<open>malformedInclude = seqs [Lit ''<!--#include'', Plus Space,
     NegLook (Alt (Lit ''virtual='') (Lit ''file=''))]\<close>

text \<open>\<^verbatim>\<open>/<template[^>]*>(?!.*<\/template>)/g\<close>\<close>

definition openTemplate :: rx where
  \<open>openTemplate = seqs [Lit ''<template'', Star (NoneOf ''>''), Lit ''>'',
     NegLook (Seq (Star Dot) (Lit ''</template>''))]\<close>

text \<open>\<^verbatim>\<open>/<!--#include\s+(virtual|file)=\"([^\"]*[<>|*?]+[^\"]*)\"/g\<close>\<close>

definition includeWithInvalidChars :: rx where
  \<open>includeWithInvalidChars = seqs [Lit ''<!--#include'', Plus Space,
     Group 1 (Alt (Lit ''virtual'') (Lit ''file'')), Lit ''="'',
     Group 2 (seqs [Star (NoneOf ''"''), Plus (OneOf ''<>|*?''), Star (NoneOf ''"'')]),
     Lit ''"'']\<close>

section \<open>The editor, the configuration and the file system\<close>

text \<open>
  Everything the analysis reads from outside is a field of the environment: the file
  system (\<open>fs.existsSync\<close>; \<open>fs.readFileSync\<close>, \<open>None\<close> when the read throws), the workspace
  folder of a document (\<open>getWorkspaceFolder(uri)?.uri.fsPath\<close>, \<open>None\<close> for \<open>undefined\<close>), the
  paths of \<open>vscode.workspace.workspaceFolders\<close> (empty when there is none), the
  \<open>unify.sourceDirectory\<close> setting (\<open>None\<close> when it is not set), and the functions of Node's
  \<open>path\<close> module, which are not code of this repository: every property below holds for
  any such functions.
\<close>

record env =
  existsSync :: "string \<Rightarrow> bool"
  readFileSync :: "string \<Rightarrow> string option"
  getWorkspaceFolder :: "string \<Rightarrow> string option"
  workspaceFolders :: "string list"
  config_sourceDirectory :: "string option"
  path_join :: "string list \<Rightarrow> string"
  path_resolve :: "string \<Rightarrow> string \<Rightarrow> string"
  path_dirname :: "string \<Rightarrow> string"
  path_basename :: "string \<Rightarrow> string"
  path_extname :: "string \<Rightarrow> string"

record textDocument =
  fileName :: string
  uri :: string
  getText :: string

datatype position = Position (line: nat) (character: nat)

datatype vrange = VRange (rstart: position) (rend: position)

datatype severity = Error | Warning | Information | Hint

datatype related = DiagnosticRelatedInformation (location_uri: string) (location_range: vrange)
  (related_message: string)

text \<open>A \<open>vscode.Diagnostic\<close>; \<open>relatedInformation\<close> is empty where the source leaves it unset.\<close>

record diagnostic =
  drange :: vrange
  message :: string
  severity :: severity
  code :: string
  source :: string
  relatedInformation :: "related list"

text \<open>\<open>config.get<string>('sourceDirectory', 'src')\<close>\<close>

definition sourceDir :: "env \<Rightarrow> string" where
  "sourceDir e = (case config_sourceDirectory e of None \<Rightarrow> ''src'' | Some d \<Rightarrow> d)"

text \<open>\<open>vscode.workspace.workspaceFolders?.[0]?.uri.fsPath || ''\<close>\<close>

definition firstWorkspaceFolder :: "env \<Rightarrow> string" where
  "firstWorkspaceFolder e = (case workspaceFolders e of [] \<Rightarrow> [] | f # _ \<Rightarrow> f)"

text \<open>
  \<open>text.split('\n')\<close>. The result is never empty (\<open>split_lines_nonempty\<close> below), so the
  first branch of the \<open>case\<close> is never taken.
\<close>

fun split_lines :: "string \<Rightarrow> string list" where
  "split_lines [] = [[]]"
| "split_lines (c # cs) =
     (if c = nl then [] # split_lines cs
      else (case split_lines cs of [] \<Rightarrow> [[c]] | l # ls \<Rightarrow> (c # l) # ls))"

text \<open>\<open>xs.join(', ')\<close>\<close>

fun join_comma :: "string list \<Rightarrow> string" where
  "join_comma [] = []"
| "join_comma [x] = x"
| "join_comma (x # xs) = x @ '', '' @ join_comma xs"

text \<open>\<open>[...new Set(slots)]\<close>: the first occurrence of each name, in insertion order.\<close>

definition uniq :: "string list \<Rightarrow> string list" where
  "uniq xs = fold (\<lambda>x acc. if x \<in> set acc then acc else acc @ [x]) xs []"

section \<open>The diagnostics engine (diagnostics.ts)\<close>

subsection \<open>Include resolution and the circular-include check\<close>

text \<open>The loop \<open>for (const ext of extensions) { ... break; }\<close> of the include resolvers.\<close>

fun tryExtensions :: "env \<Rightarrow> string \<Rightarrow> string list \<Rightarrow> string option" where
  "tryExtensions e resolvedPath [] = None"
| "tryExtensions e resolvedPath (ext # exts) =
     (if existsSync e (resolvedPath @ ext) then Some (resolvedPath @ ext)
      else tryExtensions e resolvedPath exts)"

definition extensions :: "string list" where
  "extensions = [''.html'', ''.htm'', ''.md'']"

text \<open>
  \<open>checkCircularIncludes\<close> and its \<open>while\<close> loop over the include directives of the target
  file (\<open>checkMatches\<close>, over the matches still to visit). The recursive call passes
  \<open>currentFile\<close> on unchanged and a copy of \<open>visited\<close>, to which \<open>currentFile\<close> was added.
  A read error is caught and gives \<open>false\<close>. \<open>nextPath\<close> is the path a directive of the
  target file names: a \<open>virtual\<close> one under the first workspace folder, a \<open>file\<close> one
  beside the target file; no extension is tried here.
\<close>

definition nextPath :: "env \<Rightarrow> string \<Rightarrow> rxmatch \<Rightarrow> string" where
  "nextPath e targetFile m =
     (if grp 1 m = ''virtual''
      then path_join e [firstWorkspaceFolder e, sourceDir e, grp 2 m]
      else path_resolve e (path_dirname e targetFile) (grp 2 m))"

function checkCircularIncludes :: "env \<Rightarrow> string \<Rightarrow> string \<Rightarrow> string set \<Rightarrow> bool"
  and checkMatches :: "env \<Rightarrow> string \<Rightarrow> string \<Rightarrow> string set \<Rightarrow> rxmatch list \<Rightarrow> bool"
where
  "checkCircularIncludes e currentFile targetFile visited =
     (if currentFile \<in> visited then True
      else if currentFile = targetFile then True
      else (case readFileSync e targetFile of
              None \<Rightarrow> False
            | Some content \<Rightarrow>
                checkMatches e currentFile targetFile (insert currentFile visited)
                  (matchAll includeRegex content 0)))"
| "checkMatches e currentFile targetFile visited [] = False"
| "checkMatches e currentFile targetFile visited (m # ms) =
     (if existsSync e (nextPath e targetFile m)
      then (if checkCircularIncludes e currentFile (nextPath e targetFile m) visited then True
            else checkMatches e currentFile targetFile visited ms)
      else checkMatches e currentFile targetFile visited ms)"
  by pat_completeness auto
termination
  by (relation "inv_image (less_than <*lex*> less_than)
        (\<lambda>x. case x of
           Inl (e, currentFile, targetFile, visited) \<Rightarrow>
             (if currentFile \<in> visited then 0 else 1, 0 :: nat)
         | Inr (e, currentFile, targetFile, visited, ms) \<Rightarrow>
             (if currentFile \<in> visited then 0 :: nat else 1, Suc (length ms)))")
    auto

declare checkCircularIncludes.simps [simp del]

text \<open>The same traversal, recording the \<open>targetFile\<close> of every call in call order.\<close>

function checkCircularIncludes_calls :: "env \<Rightarrow> string \<Rightarrow> string \<Rightarrow> string set \<Rightarrow> bool \<times> string list"
  and checkMatches_calls :: "env \<Rightarrow> string \<Rightarrow> string \<Rightarrow> string set \<Rightarrow> rxmatch list \<Rightarrow> bool \<times> string list"
where
  "checkCircularIncludes_calls e currentFile targetFile visited =
     (if currentFile \<in> visited then (True, [targetFile])
      else if currentFile = targetFile then (True, [targetFile])
      else (case readFileSync e targetFile of
              None \<Rightarrow> (False, [targetFile])
            | Some content \<Rightarrow>
                (case checkMatches_calls e currentFile targetFile (insert currentFile visited)
                        (matchAll includeRegex content 0) of
                   (b, calls) \<Rightarrow> (b, targetFile # calls))))"
| "checkMatches_calls e currentFile targetFile visited [] = (False, [])"
| "checkMatches_calls e currentFile targetFile visited (m # ms) =
     (if existsSync e (nextPath e targetFile m)
      then (case checkCircularIncludes_calls e currentFile (nextPath e targetFile m) visited of
              (b, calls) \<Rightarrow>
                if b then (True, calls)
                else (case checkMatches_calls e currentFile targetFile visited ms of
                        (b', calls') \<Rightarrow> (b', calls @ calls')))
      else checkMatches_calls e currentFile targetFile visited ms)"
  by pat_completeness auto
termination
  by (relation "inv_image (less_than <*lex*> less_than)
        (\<lambda>x. case x of
           Inl (e, currentFile, targetFile, visited) \<Rightarrow>
             (if currentFile \<in> visited then 0 else 1, 0 :: nat)
         | Inr (e, currentFile, targetFile, visited, ms) \<Rightarrow>
             (if currentFile \<in> visited then 0 :: nat else 1, Suc (length ms)))")
    auto

declare checkCircularIncludes_calls.simps [simp del]

text \<open>
  The value \<open>resolveIncludePath\<close> returns. In the function, \<open>finalPath\<close> is the first path
  found to exist, if there is one: the source's \<open>exists\<close> is whether there is one, and its
  \<open>finalPath\<close> is that path, or the resolved path itself when there is none.
\<close>

record resolution =
  exists :: bool
  expectedPath :: string
  circular :: bool

text \<open>The path an include reference starts from: \<open>virtual\<close> is rooted, \<open>file\<close> is relative.\<close>

definition includeBase :: "env \<Rightarrow> textDocument \<Rightarrow> string \<Rightarrow> string \<Rightarrow> string \<Rightarrow> string" where
  "includeBase e document type includePath workspaceRoot =
     (if type = ''virtual'' then path_join e [workspaceRoot, sourceDir e, includePath]
      else path_resolve e (path_dirname e (fileName document)) includePath)"

definition resolveIncludePath ::
  "env \<Rightarrow> textDocument \<Rightarrow> string \<Rightarrow> string \<Rightarrow> string \<Rightarrow> resolution" where
  "resolveIncludePath e document type includePath workspaceRoot =
     (let resolvedPath = includeBase e document type includePath workspaceRoot;
          finalPath =
            (if existsSync e resolvedPath then Some resolvedPath
             else tryExtensions e resolvedPath extensions)
      in case finalPath of
           None \<Rightarrow> \<lparr>exists = False, expectedPath = resolvedPath, circular = False\<rparr>
         | Some p \<Rightarrow> \<lparr>exists = True, expectedPath = p,
             circular = checkCircularIncludes e (fileName document) p {}\<rparr>)"

subsection \<open>The include stage\<close>

definition createIncludeFileSuggestion :: "env \<Rightarrow> string \<Rightarrow> string" where
  "createIncludeFileSuggestion e expected =
     (if existsSync e (path_dirname e expected)
      then ''Create missing include file: '' @ path_basename e expected
      else ''Create directory and include file: '' @ expected)"

text \<open>
  The body of the scanning loop of \<open>analyzeIncludes\<close>, for one match \<open>m\<close> on line \<open>i\<close>:
  the findings the directive adds. \<open>if (resolvedPath.expectedPath)\<close> holds for a
  non-empty string.
\<close>

definition includeDiagnostics ::
  "env \<Rightarrow> textDocument \<Rightarrow> string \<Rightarrow> nat \<Rightarrow> rxmatch \<Rightarrow> diagnostic list" where
  "includeDiagnostics e document workspaceRoot i m =
     (let includePath = grp 2 m;
          startChar = index m;
          endChar = startChar + length (matched m);
          range = VRange (Position i startChar) (Position i endChar);
          resolvedPath = resolveIncludePath e document (grp 1 m) includePath workspaceRoot
      in if \<not> exists resolvedPath then
           [\<lparr>drange = range,
             message = ''Include file not found: '' @ includePath,
             severity = Error, code = ''include-not-found'', source = ''Unify'',
             relatedInformation =
               (if expectedPath resolvedPath \<noteq> []
                then [DiagnosticRelatedInformation (uri document) range
                        (createIncludeFileSuggestion e (expectedPath resolvedPath))]
                else [])\<rparr>]
         else if circular resolvedPath then
           [\<lparr>drange = range,
             message = ''Circular include dependency detected: '' @ includePath,
             severity = Error, code = ''circular-include'', source = ''Unify'',
             relatedInformation = []\<rparr>]
         else [])"

text \<open>
  \<open>analyzeIncludes\<close>: \<open>if (!workspaceRoot)\<close> holds for \<open>undefined\<close> and for the empty
  string; then every line, and on a line every match, in order.
\<close>

definition analyzeIncludes :: "env \<Rightarrow> textDocument \<Rightarrow> string list \<Rightarrow> diagnostic list" where
  "analyzeIncludes e document lines =
     (case getWorkspaceFolder e (uri document) of
        None \<Rightarrow> []
      | Some workspaceRoot \<Rightarrow>
          if workspaceRoot = [] then []
          else concat (map (\<lambda>(i, l).
                 concat (map (includeDiagnostics e document workspaceRoot i)
                   (matchAll includeRegex l 0)))
               (enumerate 0 lines)))"

subsection \<open>The template stage\<close>

text \<open>
  The loop \<open>for (const possiblePath of possiblePaths)\<close> of the template resolvers:
  \<open>.html\<close> is appended to a candidate whose \<open>path.extname\<close> is empty.
\<close>

fun firstExistingTemplate :: "env \<Rightarrow> string list \<Rightarrow> string option" where
  "firstExistingTemplate e [] = None"
| "firstExistingTemplate e (possiblePath # rest) =
     (let testPath = (if path_extname e possiblePath = [] then possiblePath @ ''.html''
                      else possiblePath)
      in if existsSync e testPath then Some testPath else firstExistingTemplate e rest)"

definition resolveTemplatePath ::
  "env \<Rightarrow> textDocument \<Rightarrow> string \<Rightarrow> string \<Rightarrow> string option" where
  "resolveTemplatePath e document extendsPath workspaceRoot =
     firstExistingTemplate e
       [path_join e [workspaceRoot, sourceDir e, ''layouts'', extendsPath],
        path_join e [workspaceRoot, sourceDir e, ''components'', extendsPath],
        path_join e [workspaceRoot, sourceDir e, extendsPath]]"

text \<open>\<open>if (!templatePath)\<close> holds for \<open>undefined\<close> and for the empty string.\<close>

definition templateDiagnostics ::
  "env \<Rightarrow> textDocument \<Rightarrow> string \<Rightarrow> nat \<Rightarrow> rxmatch \<Rightarrow> diagnostic list" where
  "templateDiagnostics e document workspaceRoot i m =
     (let extendsPath = grp 1 m;
          startChar = index m;
          endChar = startChar + length (matched m);
          templatePath = resolveTemplatePath e document extendsPath workspaceRoot
      in if templatePath = None \<or> templatePath = Some [] then
           [\<lparr>drange = VRange (Position i startChar) (Position i endChar),
             message = ''Template not found: '' @ extendsPath,
             severity = Error, code = ''template-not-found'', source = ''Unify'',
             relatedInformation = []\<rparr>]
         else [])"

definition analyzeTemplates :: "env \<Rightarrow> textDocument \<Rightarrow> string list \<Rightarrow> diagnostic list" where
  "analyzeTemplates e document lines =
     (case getWorkspaceFolder e (uri document) of
        None \<Rightarrow> []
      | Some workspaceRoot \<Rightarrow>
          if workspaceRoot = [] then []
          else concat (map (\<lambda>(i, l).
                 concat (map (templateDiagnostics e document workspaceRoot i)
                   (matchAll templateRegex l 0)))
               (enumerate 0 lines)))"

subsection \<open>The slot stage\<close>

text \<open>\<open>text.match(...)\<close> without the \<open>g\<close> flag: the first match in the whole text.\<close>

definition findExtendedTemplate :: "env \<Rightarrow> textDocument \<Rightarrow> string option" where
  "findExtendedTemplate e document =
     (case exec templateRx (getText document) 0 of
        None \<Rightarrow> None
      | Some templateMatch \<Rightarrow>
          (case getWorkspaceFolder e (uri document) of
             None \<Rightarrow> None
           | Some workspaceRoot \<Rightarrow>
               if workspaceRoot = [] then None
               else resolveTemplatePath e document (grp 1 templateMatch) workspaceRoot))"

definition extractSlots :: "string \<Rightarrow> string list" where
  "extractSlots content = uniq (map (grp 1) (matchAll slotDeclRegex content 0))"

definition slotDiagnostics :: "textDocument \<Rightarrow> string list \<Rightarrow> nat \<Rightarrow> rxmatch \<Rightarrow> diagnostic list" where
  "slotDiagnostics document availableSlots i m =
     (let slotName = grp 1 m;
          startChar = index m;
          endChar = startChar + length (matched m);
          range = VRange (Position i startChar) (Position i endChar)
      in if slotName \<notin> set availableSlots then
           [\<lparr>drange = range,
             message = ''Slot '' @ [sq] @ slotName @ [sq] @ '' is not defined in the extended template'',
             severity = Warning, code = ''undefined-slot'', source = ''Unify'',
             relatedInformation =
               (if availableSlots \<noteq> []
                then [DiagnosticRelatedInformation (uri document) range
                        (''Available slots: '' @ join_comma availableSlots)]
                else [])\<rparr>]
         else [])"

text \<open>
  \<open>analyzeSlots\<close>: nothing without an extended template (\<open>undefined\<close> or the empty string);
  a template that cannot be read is caught and gives no finding.
\<close>

definition analyzeSlots :: "env \<Rightarrow> textDocument \<Rightarrow> string list \<Rightarrow> diagnostic list" where
  "analyzeSlots e document lines =
     (case findExtendedTemplate e document of
        None \<Rightarrow> []
      | Some extendedTemplate \<Rightarrow>
          if extendedTemplate = [] then []
          else (case readFileSync e extendedTemplate of
                  None \<Rightarrow> []
                | Some templateContent \<Rightarrow>
                    concat (map (\<lambda>(i, l).
                      concat (map (slotDiagnostics document (extractSlots templateContent) i)
                        (matchAll slotRegex l 0)))
                    (enumerate 0 lines))))"

subsection \<open>The syntax stage\<close>

text \<open>Each check looks at the first match on the line only (\<open>exec\<close> once, no loop).\<close>

definition syntaxFinding ::
  "rx \<Rightarrow> string \<Rightarrow> severity \<Rightarrow> string \<Rightarrow> nat \<Rightarrow> string \<Rightarrow> diagnostic list" where
  "syntaxFinding r msg sev c i l =
     (case exec r l 0 of
        None \<Rightarrow> []
      | Some m \<Rightarrow>
          [\<lparr>drange = VRange (Position i (index m)) (Position i (index m + length (matched m))),
            message = msg, severity = sev, code = c, source = ''Unify'',
            relatedInformation = []\<rparr>])"

definition syntaxDiagnostics :: "nat \<Rightarrow> string \<Rightarrow> diagnostic list" where
  \<open>syntaxDiagnostics i l =
     syntaxFinding malformedInclude
       ''Malformed include directive. Use virtual="path" or file="path"''
       Error ''malformed-include'' i l
     @ syntaxFinding openTemplate ''Template tag may not be properly closed''
       Information ''unclosed-template'' i l
     @ syntaxFinding includeWithInvalidChars ''Include path contains invalid characters''
       Error ''invalid-path-chars'' i l\<close>

definition analyzeSyntax :: "textDocument \<Rightarrow> string list \<Rightarrow> diagnostic list" where
  "analyzeSyntax document lines = concat (map (\<lambda>(i, l). syntaxDiagnostics i l) (enumerate 0 lines))"

subsection \<open>The whole analysis and its publication\<close>

definition analyzeDocument :: "env \<Rightarrow> textDocument \<Rightarrow> diagnostic list" where
  "analyzeDocument e document =
     (let lines = split_lines (getText document)
      in analyzeIncludes e document lines
         @ analyzeTemplates e document lines
         @ analyzeSlots e document lines
         @ analyzeSyntax document lines)"

text \<open>
  The state \<open>updateDiagnostics\<close> writes: the diagnostic collection (by document uri) and the
  lines of the output channel.
\<close>

record extensionState =
  diagnostics :: "string \<Rightarrow> diagnostic list option"
  outputChannel :: "string list"

fun show_nat :: "nat \<Rightarrow> string" where
  "show_nat n = (if n < 10 then [char_of (48 + n)]
                 else show_nat (n div 10) @ [char_of (48 + n mod 10)])"

declare show_nat.simps [simp del]

definition updateDiagnostics :: "env \<Rightarrow> extensionState \<Rightarrow> textDocument \<Rightarrow> extensionState" where
  "updateDiagnostics e st document =
     (let ds = analyzeDocument e document
      in st\<lparr>diagnostics := (diagnostics st)(uri document \<mapsto> ds),
            outputChannel := outputChannel st @
              [''Updated diagnostics for '' @ fileName document @ '': '' @
               show_nat (length ds) @ '' issues found'']\<rparr>)"

section \<open>The navigation and completion providers\<close>

text \<open>
  \<open>resolveIncludeDefinition\<close> and \<open>resolveTemplateDefinition\<close> of definitionProvider.ts: the
  lines written to the output channel and the file of the returned location.
\<close>

definition resolveIncludeDefinition ::
  "env \<Rightarrow> textDocument \<Rightarrow> string \<Rightarrow> string \<Rightarrow> string list \<times> string option" where
  "resolveIncludeDefinition e document type includePath =
     (case getWorkspaceFolder e (uri document) of
        None \<Rightarrow> ([], None)
      | Some workspaceRoot \<Rightarrow>
          if workspaceRoot = [] then ([], None)
          else (let resolvedPath = includeBase e document type includePath workspaceRoot
                in if existsSync e resolvedPath then ([], Some resolvedPath)
                   else (case tryExtensions e resolvedPath extensions of
                           None \<Rightarrow> ([''Include file not found: '' @ resolvedPath], None)
                         | Some pathWithExt \<Rightarrow> ([], Some pathWithExt))))"


text \<open>
  \<open>findExtendedTemplate\<close> of completionProvider.ts, with its own pattern
  \<^verbatim>\<open>/<template[^>]+extends=\"([^\"]+)\"/\<close>: the candidates are tested as they are.
\<close>

definition completionTemplateRx :: rx where
  \<open>completionTemplateRx = seqs [Lit ''<template'', Plus (NoneOf ''>''), Lit ''extends="'',
     Group 1 (Plus (NoneOf ''"'')), Lit ''"'']\<close>

definition completion_findExtendedTemplate :: "env \<Rightarrow> textDocument \<Rightarrow> string option" where
  "completion_findExtendedTemplate e document =
     (case exec completionTemplateRx (getText document) 0 of
        None \<Rightarrow> None
      | Some templateMatch \<Rightarrow>
          (case getWorkspaceFolder e (uri document) of
             None \<Rightarrow> None
           | Some workspaceRoot \<Rightarrow>
               if workspaceRoot = [] then None
               else find (existsSync e)
                 [path_join e [workspaceRoot, sourceDir e, ''layouts'', grp 1 templateMatch],
                  path_join e [workspaceRoot, sourceDir e, ''components'', grp 1 templateMatch],
                  path_join e [workspaceRoot, sourceDir e, grp 1 templateMatch]]))"

section \<open>Concrete workspaces\<close>

text \<open>
  A workspace to run the analysis in: the folder \<open>/w\<close>, the default source directory
  \<open>src\<close>, files with their contents and directories. Its path functions are Node's POSIX
  ones restricted to the paths used below: absolute paths and relative segments in
  normal form (no empty, \<open>.\<close> or \<open>..\<close> segment, no trailing slash), on which \<open>path.join\<close>
  and \<open>path.resolve\<close> only put \<open>/\<close> between the parts.
\<close>

fun join_slash :: "string list \<Rightarrow> string" where
  "join_slash [] = []"
| "join_slash [x] = x"
| "join_slash (x # xs) = x @ ''/'' @ join_slash xs"

definition simple_join :: "string list \<Rightarrow> string" where
  "simple_join parts = join_slash (filter (\<lambda>p. p \<noteq> []) parts)"

definition simple_resolve :: "string \<Rightarrow> string \<Rightarrow> string" where
  "simple_resolve dir p =
     (case p of [] \<Rightarrow> dir | c # _ \<Rightarrow> if c = CHR ''/'' then p else dir @ ''/'' @ p)"

definition simple_dirname :: "string \<Rightarrow> string" where
  "simple_dirname p =
     (let d = rev (drop 1 (dropWhile (\<lambda>c. c \<noteq> CHR ''/'') (rev p)))
      in if d \<noteq> [] then d else if CHR ''/'' \<in> set p then ''/'' else ''.'')"

definition simple_basename :: "string \<Rightarrow> string" where
  "simple_basename p = rev (takeWhile (\<lambda>c. c \<noteq> CHR ''/'') (rev p))"

definition simple_extname :: "string \<Rightarrow> string" where
  "simple_extname p =
     (let b = simple_basename p;
          ext = rev (takeWhile (\<lambda>c. c \<noteq> CHR ''.'') (rev b))
      in if CHR ''.'' \<notin> set b \<or> length b \<le> length ext + 1 then [] else CHR ''.'' # ext)"

definition workspace :: "(string \<times> string) list \<Rightarrow> string list \<Rightarrow> env" where
  "workspace files dirs =
     \<lparr>existsSync = (\<lambda>p. p \<in> set (map fst files) \<or> p \<in> set dirs),
      readFileSync = map_of files,
      getWorkspaceFolder = (\<lambda>u. Some ''/w''),
      workspaceFolders = [''/w''],
      config_sourceDirectory = None,
      path_join = simple_join,
      path_resolve = simple_resolve,
      path_dirname = simple_dirname,
      path_basename = simple_basename,
      path_extname = simple_extname\<rparr>"

definition doc :: "string \<Rightarrow> string \<Rightarrow> textDocument" where
  "doc name txt = \<lparr>fileName = name, uri = ''file://'' @ name, getText = txt\<rparr>"

text \<open>The diamond: a.html includes b.html and c.html, and both include d.html.\<close>

definition diamond_a :: string where
  \<open>diamond_a = ''<!--#include file="b.html" -->'' @ [nl] @ ''<!--#include file="c.html" -->''\<close>

definition diamond :: env where
  \<open>diamond = workspace
     [(''/w/src/a.html'', diamond_a),
      (''/w/src/b.html'', ''<!--#include file="d.html" -->''),
      (''/w/src/c.html'', ''<!--#include file="d.html" -->''),
      (''/w/src/d.html'', ''<p>leaf</p>'')]
     [''/w'', ''/w/src'']\<close>

text \<open>Both a.html and a.md exist for the reference \<open>a\<close>.\<close>

definition two_extensions :: env where
  "two_extensions = workspace
     [(''/w/src/index.html'', []), (''/w/src/a.html'', []), (''/w/src/a.md'', [])]
     [''/w'', ''/w/src'']"

text \<open>
  A chain of 52 files without a cycle: f.html includes fx.html, which includes fxx.html,
  and so on; the last one includes nothing.
\<close>

definition chain_file :: "nat \<Rightarrow> string" where
  "chain_file n = ''f'' @ replicate n (CHR ''x'') @ ''.html''"

definition chain_text :: "nat \<Rightarrow> string" where
  \<open>chain_text n = (if n < 51 then ''<!--#include file="'' @ chain_file (Suc n) @ ''" -->''
                    else ''<p>end</p>'')\<close>

definition chain :: env where
  "chain = workspace (map (\<lambda>n. (''/w/src/'' @ chain_file n, chain_text n)) [0..<52])
     [''/w'', ''/w/src'']"

text \<open>A document whose only directive names a file that does not exist.\<close>

definition missing_text :: string where
  \<open>missing_text = ''<!--#include virtual="nav.html" -->''\<close>

definition lonely :: env where
  "lonely = workspace [(''/w/src/index.html'', missing_text)] [''/w'', ''/w/src'']"



definition site_text :: string where
  \<open>site_text = ''<template extends="base"></template>''\<close>

definition site :: env where
  \<open>site = workspace
     [(''/w/src/index.html'', site_text),
      (''/w/src/layouts/base.html'', ''<slot name="content"></slot>''),
      (''/w/src/components/base.html'', ''<slot name="content"></slot>'')]
     [''/w'', ''/w/src'', ''/w/src/layouts'', ''/w/src/components'']\<close>

text \<open>
  A layout that declares the slots title and content, and a post that extends it and
  fills content and sidebar.
\<close>

definition layout_text :: string where
  \<open>layout_text = ''<title><slot name="title"></slot></title>'' @ [nl] @
     ''<main><slot name="content"></slot></main>''\<close>

definition post_lines :: "string list" where
  \<open>post_lines = [''<template extends="layout.html"></template>'',
     ''<template slot="content">Hello</template>'',
     ''<template slot="sidebar">Links</template>'']\<close>

definition post_text :: string where
  "post_text = post_lines ! 0 @ [nl] @ post_lines ! 1 @ [nl] @ post_lines ! 2"

definition blog :: env where
  "blog = workspace
     [(''/w/src/post.html'', post_text), (''/w/src/layouts/layout.html'', layout_text)]
     [''/w'', ''/w/src'', ''/w/src/layouts'']"

text \<open>
  A document with a template tag on its first line and an include directive on its
  second, neither of which resolves.
\<close>

definition unsorted_text :: string where
  \<open>unsorted_text = ''<template extends="nope"></template>'' @ [nl] @
     ''<!--#include file="gone.html" -->''\<close>

text \<open>A document with two extends tags, both of which resolve.\<close>

definition twice_text :: string where
  \<open>twice_text = ''<template extends="base"></template>'' @ [nl] @
     ''<template extends="other"></template>''\<close>

definition twice :: env where
  \<open>twice = workspace
     [(''/w/src/index.html'', twice_text),
      (''/w/src/layouts/base.html'', ''<slot name="content"></slot>''),
      (''/w/src/layouts/other.html'', ''<slot name="content"></slot>'')]
     [''/w'', ''/w/src'', ''/w/src/layouts'']\<close>

text \<open>
  Include directives with a single-quoted path: after one space, and after two. The first
  document starts with a well-formed directive for a file that does not exist.
\<close>

definition quoted_text :: string where
  \<open>quoted_text = missing_text @ [nl] @ ''<!--#include virtual='' @ [sq] @ ''x.html'' @ [sq] @ '' -->''\<close>

definition two_spaces_text :: string where
  \<open>two_spaces_text = ''<!--#include  virtual='' @ [sq] @ ''x.html'' @ [sq] @ '' -->''\<close>

text \<open>
  The same document in an editor that has no workspace folder for it; and a well-formed
  directive with two spaces between \<open>#include\<close> and the attribute.
\<close>

definition outside :: env where
  "outside = lonely\<lparr>getWorkspaceFolder := (\<lambda>u. None)\<rparr>"

definition two_spaces_well_formed :: string where
  \<open>two_spaces_well_formed = ''<!--#include  virtual="nav.html" -->''\<close>

text \<open>The state of the extension before anything was analysed.\<close>

definition idle :: extensionState where
  "idle = \<lparr>diagnostics = Map.empty, outputChannel = []\<rparr>"

section \<open>Reading a report\<close>

text \<open>
  Where a finding starts, and the stage that produced it, read off its code: 0 for the
  include stage, 1 for the template stage, 2 for the slot stage, 3 for the syntax stage.
  \<open>syntaxRank\<close> is the place of a syntax check among the three checks of a line, and
  \<open>reported_before\<close> the order of findings by stage, then line, then column (for the
  syntax stage: then check).
\<close>

definition startLine :: "diagnostic \<Rightarrow> nat" where
  "startLine d = line (rstart (drange d))"

definition startColumn :: "diagnostic \<Rightarrow> nat" where
  "startColumn d = character (rstart (drange d))"

definition stage :: "diagnostic \<Rightarrow> nat" where
  "stage d =
     (if code d = ''include-not-found'' \<or> code d = ''circular-include'' then 0
      else if code d = ''template-not-found'' then 1
      else if code d = ''undefined-slot'' then 2
      else 3)"

definition syntaxRank :: "diagnostic \<Rightarrow> nat" where
  "syntaxRank d =
     (if code d = ''malformed-include'' then 0
      else if code d = ''unclosed-template'' then 1
      else 2)"

definition reported_before :: "diagnostic \<Rightarrow> diagnostic \<Rightarrow> bool" where
  "reported_before a b =
     (stage a < stage b \<or>
      (stage a = stage b \<and>
         (startLine a < startLine b \<or>
          (startLine a = startLine b \<and>
             (if stage a = 3 then syntaxRank a < syntaxRank b
              else startColumn a < startColumn b)))))"

section \<open>Properties of include resolution\<close>

text \<open>A text always has a first line.\<close>

lemma split_lines_nonempty: "split_lines s \<noteq> []"
  by (induction s) (auto split: list.splits)

lemma tryExtensions_find:
  "tryExtensions e p exts = find (existsSync e) (map ((@) p) exts)"
  by (induction exts) auto

lemma checkCircularIncludes_visited:
  "currentFile \<in> visited \<Longrightarrow> checkCircularIncludes e currentFile targetFile visited"
  by (simp add: checkCircularIncludes.simps)

lemma checkMatches_visited:
  "currentFile \<in> visited \<Longrightarrow>
     checkMatches e currentFile targetFile visited ms
       = (\<exists>m \<in> set ms. existsSync e (nextPath e targetFile m))"
  by (induction ms) (auto simp: checkCircularIncludes_visited)

text \<open>
  What the check computes from the top (\<open>visited\<close> empty): the target is the document
  itself, or the target can be read and one of its include directives names an existing
  path.
\<close>

lemma checkCircularIncludes_top:
  "checkCircularIncludes e currentFile targetFile {} =
     (currentFile = targetFile \<or>
      (\<exists>content. readFileSync e targetFile = Some content \<and>
         (\<exists>m \<in> set (matchAll includeRegex content 0). existsSync e (nextPath e targetFile m))))"
  by (auto simp: checkCircularIncludes.simps checkMatches_visited split: option.splits)

text \<open>
  C1 (the diamond is not a cycle). The code reports one: analysing a.html of the diamond
  gives a \<open>circular-include\<close> finding for each of its two directives, although no file of
  the diamond includes a file that leads back to it. The nested call always finds
  \<open>currentFile\<close>, which never changes, in the copy of \<open>visited\<close> it is given.
\<close>

theorem diamond_reports_circular:
  "analyzeDocument diamond (doc ''/w/src/a.html'' diamond_a) =
     [\<lparr>drange = VRange (Position 0 0) (Position 0 30),
       message = ''Circular include dependency detected: b.html'',
       severity = Error, code = ''circular-include'', source = ''Unify'',
       relatedInformation = []\<rparr>,
      \<lparr>drange = VRange (Position 1 0) (Position 1 30),
       message = ''Circular include dependency detected: c.html'',
       severity = Error, code = ''circular-include'', source = ''Unify'',
       relatedInformation = []\<rparr>]"
  by code_simp

lemma resolveIncludePath_cases:
  "resolveIncludePath e document type includePath workspaceRoot =
     (case find (existsSync e)
             [includeBase e document type includePath workspaceRoot,
              includeBase e document type includePath workspaceRoot @ ''.html'',
              includeBase e document type includePath workspaceRoot @ ''.htm'',
              includeBase e document type includePath workspaceRoot @ ''.md''] of
        None \<Rightarrow> \<lparr>exists = False,
                  expectedPath = includeBase e document type includePath workspaceRoot,
                  circular = False\<rparr>
      | Some p \<Rightarrow> \<lparr>exists = True, expectedPath = p,
                    circular = checkCircularIncludes e (fileName document) p {}\<rparr>)"
  by (simp add: resolveIncludePath_def tryExtensions_find extensions_def Let_def)

lemma resolveIncludeDefinition_cases:
  "getWorkspaceFolder e (uri document) = Some workspaceRoot \<Longrightarrow> workspaceRoot \<noteq> [] \<Longrightarrow>
   snd (resolveIncludeDefinition e document type includePath) =
     find (existsSync e)
             [includeBase e document type includePath workspaceRoot,
              includeBase e document type includePath workspaceRoot @ ''.html'',
              includeBase e document type includePath workspaceRoot @ ''.htm'',
              includeBase e document type includePath workspaceRoot @ ''.md'']"
  by (simp add: resolveIncludeDefinition_def tryExtensions_find extensions_def Let_def split: option.splits)

text \<open>
  C2 (candidate order of an include reference). The candidates are the resolved path
  itself and then the path with \<open>.html\<close>, \<open>.htm\<close> and \<open>.md\<close> appended. The diagnostics
  resolver reports that the reference exists exactly when a candidate exists, and then
  its \<open>expectedPath\<close> is the first existing candidate in that order; the definition
  provider returns the same first existing candidate. So when the path itself does not
  exist and both the \<open>.html\<close> and the \<open>.md\<close> candidate do, \<open>.html\<close> wins.
\<close>

theorem resolveIncludePath_first_candidate:
  "let base = includeBase e document type includePath workspaceRoot;
       candidates = [base, base @ ''.html'', base @ ''.htm'', base @ ''.md''];
       r = resolveIncludePath e document type includePath workspaceRoot
   in exists r = (\<exists>c \<in> set candidates. existsSync e c)
      \<and> (exists r \<longrightarrow> find (existsSync e) candidates = Some (expectedPath r))
      \<and> (getWorkspaceFolder e (uri document) = Some workspaceRoot \<and> workspaceRoot \<noteq> [] \<longrightarrow>
           snd (resolveIncludeDefinition e document type includePath)
             = find (existsSync e) candidates)
      \<and> (\<not> existsSync e base \<and> existsSync e (base @ ''.html'') \<and> existsSync e (base @ ''.md'')
           \<longrightarrow> expectedPath r = base @ ''.html'')"
proof -
  define base where "base = includeBase e document type includePath workspaceRoot"
  define candidates where "candidates = [base, base @ ''.html'', base @ ''.htm'', base @ ''.md'']"
  define r where "r = resolveIncludePath e document type includePath workspaceRoot"
  have r: "r = (case find (existsSync e) candidates of
        None \<Rightarrow> \<lparr>exists = False, expectedPath = base, circular = False\<rparr>
      | Some p \<Rightarrow> \<lparr>exists = True, expectedPath = p,
                    circular = checkCircularIncludes e (fileName document) p {}\<rparr>)"
    unfolding r_def candidates_def base_def by (rule resolveIncludePath_cases)
  have 1: "exists r = (\<exists>c \<in> set candidates. existsSync e c)"
  proof -
    have "exists r = (find (existsSync e) candidates \<noteq> None)"
      unfolding r by (simp split: option.split)
    then show ?thesis by (auto simp: find_None_iff)
  qed
  have 2: "exists r \<longrightarrow> find (existsSync e) candidates = Some (expectedPath r)"
    unfolding r by (simp split: option.split)
  have 3: "getWorkspaceFolder e (uri document) = Some workspaceRoot \<and> workspaceRoot \<noteq> [] \<longrightarrow>
           snd (resolveIncludeDefinition e document type includePath)
             = find (existsSync e) candidates"
    unfolding candidates_def base_def by (simp add: resolveIncludeDefinition_cases)
  have 4: "\<not> existsSync e base \<and> existsSync e (base @ ''.html'') \<and> existsSync e (base @ ''.md'')
           \<longrightarrow> expectedPath r = base @ ''.html''"
    unfolding r candidates_def by simp
  from 1 2 3 4 show ?thesis
    unfolding Let_def base_def[symmetric] candidates_def[symmetric] r_def[symmetric] by blast
qed

theorem resolveIncludePath_first_candidate_witness:
  "\<not> existsSync two_extensions ''/w/src/a''
   \<and> existsSync two_extensions ''/w/src/a.html''
   \<and> existsSync two_extensions ''/w/src/a.md''
   \<and> exists (resolveIncludePath two_extensions (doc ''/w/src/index.html'' [])
         ''virtual'' ''a'' ''/w'')
   \<and> expectedPath (resolveIncludePath two_extensions (doc ''/w/src/index.html'' [])
         ''virtual'' ''a'' ''/w'') = ''/w/src/a.html''
   \<and> snd (resolveIncludeDefinition two_extensions (doc ''/w/src/index.html'' []) ''virtual'' ''a'')
       = Some ''/w/src/a.html''"
proof -
  define d where "d = doc ''/w/src/index.html'' []"
  define r where "r = resolveIncludePath two_extensions d ''virtual'' ''a'' ''/w''"
  have base: "includeBase two_extensions d ''virtual'' ''a'' ''/w'' = ''/w/src/a''"
    unfolding d_def by code_simp
  have 1: "\<not> existsSync two_extensions ''/w/src/a''" by code_simp
  have 2: "existsSync two_extensions (''/w/src/a'' @ ''.html'')" by code_simp
  have 3: "existsSync two_extensions (''/w/src/a'' @ ''.md'')" by code_simp
  have w: "getWorkspaceFolder two_extensions (uri d) = Some ''/w''"
    by (simp add: two_extensions_def workspace_def)
  have f: "find (existsSync two_extensions)
      [''/w/src/a'', ''/w/src/a'' @ ''.html'', ''/w/src/a'' @ ''.htm'', ''/w/src/a'' @ ''.md'']
      = Some ''/w/src/a.html''"
    using 1 2 by simp
  note T = resolveIncludePath_first_candidate
    [of two_extensions d "''virtual''" "''a''" "''/w''", unfolded Let_def base, folded r_def]
  from T have "exists r = (\<exists>c \<in> set [''/w/src/a'', ''/w/src/a'' @ ''.html'', ''/w/src/a'' @ ''.htm'',
      ''/w/src/a'' @ ''.md'']. existsSync two_extensions c)"
    by blast
  with 2 have ex: "exists r" by simp
  from T have "\<not> existsSync two_extensions ''/w/src/a''
      \<and> existsSync two_extensions (''/w/src/a'' @ ''.html'')
      \<and> existsSync two_extensions (''/w/src/a'' @ ''.md'')
      \<longrightarrow> expectedPath r = ''/w/src/a'' @ ''.html''"
    by blast
  with 1 2 3 have ep: "expectedPath r = ''/w/src/a'' @ ''.html''" by blast
  from T have "getWorkspaceFolder two_extensions (uri d) = Some ''/w'' \<and> ''/w'' \<noteq> [] \<longrightarrow>
      snd (resolveIncludeDefinition two_extensions d ''virtual'' ''a'')
        = find (existsSync two_extensions)
            [''/w/src/a'', ''/w/src/a'' @ ''.html'', ''/w/src/a'' @ ''.htm'', ''/w/src/a'' @ ''.md'']"
    by blast
  with w have df: "snd (resolveIncludeDefinition two_extensions d ''virtual'' ''a'')
      = Some ''/w/src/a.html''"
    unfolding f by simp
  from 1 2 3 ex ep df show ?thesis unfolding r_def d_def by simp
qed

section \<open>Properties of the circular-include check\<close>

text \<open>
  C3, the claim as stated fails. The chain is 51 includes deep and has no cycle. A
  traversal with a depth bound of 50 would report it as too deep; the analysis of f.html
  reports a circular include and nothing else. The code has no depth bound and no
  finding for one.
\<close>

theorem chain_reports_circular:
  "analyzeDocument chain (doc ''/w/src/f.html'' (chain_text 0)) =
     [\<lparr>drange = VRange (Position 0 0) (Position 0 31),
       message = ''Circular include dependency detected: fx.html'',
       severity = Error, code = ''circular-include'', source = ''Unify'',
       relatedInformation = []\<rparr>]"
  by code_simp

lemma includeDiagnostics_codes:
  "d \<in> set (includeDiagnostics e document workspaceRoot i m) \<Longrightarrow>
     code d = ''include-not-found'' \<or> code d = ''circular-include''"
  by (auto simp: includeDiagnostics_def Let_def split: if_splits)

text \<open>
  C3 (depth bound of the cycle traversal), as amended. The traversal takes no depth
  parameter; it is a total function and so always stops. Its answer is a boolean, and
  the include stage turns it into one of two findings: every finding of the stage is
  \<open>include-not-found\<close> or \<open>circular-include\<close>, for every document and environment.
\<close>

theorem analyzeIncludes_codes:
  "\<forall>d \<in> set (analyzeIncludes e document lines).
     code d = ''include-not-found'' \<or> code d = ''circular-include''"
  by (auto simp: analyzeIncludes_def split: option.splits dest: includeDiagnostics_codes)

theorem analyzeIncludes_codes_witness:
  "analyzeIncludes lonely (doc ''/w/src/index.html'' missing_text) [missing_text] \<noteq> []
   \<and> list_all (\<lambda>d. code d = ''include-not-found'' \<or> code d = ''circular-include'')
       (analyzeIncludes lonely (doc ''/w/src/index.html'' missing_text) [missing_text])"
proof -
  have "analyzeIncludes lonely (doc ''/w/src/index.html'' missing_text) [missing_text] \<noteq> []"
    by code_simp
  moreover from analyzeIncludes_codes
    [of lonely "doc ''/w/src/index.html'' missing_text" "[missing_text]"]
  have "list_all (\<lambda>d. code d = ''include-not-found'' \<or> code d = ''circular-include'')
       (analyzeIncludes lonely (doc ''/w/src/index.html'' missing_text) [missing_text])"
    unfolding list_all_iff .
  ultimately show ?thesis by blast
qed

lemma calls_fst:
  "fst (checkCircularIncludes_calls e currentFile targetFile visited)
     = checkCircularIncludes e currentFile targetFile visited"
  "fst (checkMatches_calls e currentFile targetFile visited ms)
     = checkMatches e currentFile targetFile visited ms"
  by (induction e currentFile targetFile visited and e currentFile targetFile visited ms
      rule: checkCircularIncludes_calls_checkMatches_calls.induct)
     (auto simp: checkCircularIncludes.simps checkCircularIncludes_calls.simps
           split: option.splits prod.splits)

lemma calls_exist:
  "existsSync e targetFile \<longrightarrow>
     (\<forall>f \<in> set (snd (checkCircularIncludes_calls e currentFile targetFile visited)). existsSync e f)"
  "\<forall>f \<in> set (snd (checkMatches_calls e currentFile targetFile visited ms)). existsSync e f"
proof (induction e currentFile targetFile visited and e currentFile targetFile visited ms
      rule: checkCircularIncludes_calls_checkMatches_calls.induct)
  case (1 e currentFile targetFile visited)
  show ?case
  proof (intro impI)
    assume ex: "existsSync e targetFile"
    show "\<forall>f \<in> set (snd (checkCircularIncludes_calls e currentFile targetFile visited)). existsSync e f"
    proof (cases "currentFile \<in> visited \<or> currentFile = targetFile")
      case True
      then show ?thesis using ex by (auto simp: checkCircularIncludes_calls.simps)
    next
      case False
      show ?thesis
      proof (cases "readFileSync e targetFile")
        case None
        then show ?thesis using False ex by (simp add: checkCircularIncludes_calls.simps)
      next
        case (Some content)
        from "1.IH"[OF _ _ Some] False
        have "\<forall>f \<in> set (snd (checkMatches_calls e currentFile targetFile (insert currentFile visited)
                 (matchAll includeRegex content 0))). existsSync e f"
          by simp
        then show ?thesis using False ex Some
          by (simp add: checkCircularIncludes_calls.simps split: prod.splits)
      qed
    qed
  qed
next
  case (2 e currentFile targetFile visited)
  show ?case by simp
next
  case (3 e currentFile targetFile visited m ms)
  show ?case
  proof (cases "existsSync e (nextPath e targetFile m)")
    case False
    with "3.IH"(3) show ?thesis by simp
  next
    case True
    obtain b calls where c: "checkCircularIncludes_calls e currentFile (nextPath e targetFile m) visited = (b, calls)"
      by (cases "checkCircularIncludes_calls e currentFile (nextPath e targetFile m) visited")
    from "3.IH"(1)[OF True] True c have calls: "\<forall>f \<in> set calls. existsSync e f" by simp
    show ?thesis
    proof (cases b)
      case True
      with calls c \<open>existsSync e (nextPath e targetFile m)\<close> show ?thesis by simp
    next
      case False
      from "3.IH"(2)[OF True c[symmetric] False]
      have "\<forall>f \<in> set (snd (checkMatches_calls e currentFile targetFile visited ms)). existsSync e f" .
      with calls c False True show ?thesis by (auto split: prod.splits)
    qed
  qed
qed

lemma find_SomeD: "find P xs = Some x \<Longrightarrow> P x"
  by (auto simp: find_Some_iff)

lemma resolveIncludePath_exists:
  assumes "exists (resolveIncludePath e document type includePath workspaceRoot)"
  shows "existsSync e (expectedPath (resolveIncludePath e document type includePath workspaceRoot))"
proof -
  define candidates where "candidates =
    [includeBase e document type includePath workspaceRoot,
     includeBase e document type includePath workspaceRoot @ ''.html'',
     includeBase e document type includePath workspaceRoot @ ''.htm'',
     includeBase e document type includePath workspaceRoot @ ''.md'']"
  have r: "resolveIncludePath e document type includePath workspaceRoot =
     (case find (existsSync e) candidates of
        None \<Rightarrow> \<lparr>exists = False,
                  expectedPath = includeBase e document type includePath workspaceRoot,
                  circular = False\<rparr>
      | Some p \<Rightarrow> \<lparr>exists = True, expectedPath = p,
                    circular = checkCircularIncludes e (fileName document) p {}\<rparr>)"
    unfolding candidates_def by (rule resolveIncludePath_cases)
  show ?thesis
  proof (cases "find (existsSync e) candidates")
    case None
    with assms r show ?thesis by simp
  next
    case (Some p)
    from find_SomeD[OF Some] Some r show ?thesis by simp
  qed
qed

lemma resolveIncludePath_circular:
  "circular (resolveIncludePath e document type includePath workspaceRoot) =
     (exists (resolveIncludePath e document type includePath workspaceRoot) \<and>
      checkCircularIncludes e (fileName document)
        (expectedPath (resolveIncludePath e document type includePath workspaceRoot)) {})"
  by (simp add: resolveIncludePath_cases split: option.splits)

text \<open>
  One include directive (a match \<open>m\<close> of the include pattern on line \<open>i\<close>): if its
  reference resolves to no existing file, the directive yields exactly one finding,
  \<open>include-not-found\<close>; a \<open>circular-include\<close> finding is only given for a reference that
  exists, whose resolved path is on disk; the circular check is run only then, from that
  path; and every file the traversal is called on exists.
\<close>

lemma include_directive_findings:
  "let r = resolveIncludePath e document (grp 1 m) (grp 2 m) workspaceRoot;
       traversal = checkCircularIncludes_calls e (fileName document) (expectedPath r) {}
   in (\<not> exists r \<longrightarrow>
         map code (includeDiagnostics e document workspaceRoot i m) = [''include-not-found''])
      \<and> (\<forall>d \<in> set (includeDiagnostics e document workspaceRoot i m).
            code d = ''circular-include'' \<longrightarrow> exists r \<and> existsSync e (expectedPath r))
      \<and> circular r = (exists r \<and> fst traversal)
      \<and> (exists r \<longrightarrow> (\<forall>f \<in> set (snd traversal). existsSync e f))"
proof -
  define r where "r = resolveIncludePath e document (grp 1 m) (grp 2 m) workspaceRoot"
  have 1: "\<not> exists r \<longrightarrow>
         map code (includeDiagnostics e document workspaceRoot i m) = [''include-not-found'']"
    by (simp add: includeDiagnostics_def Let_def r_def)
  have 2: "\<forall>d \<in> set (includeDiagnostics e document workspaceRoot i m).
            code d = ''circular-include'' \<longrightarrow> exists r \<and> existsSync e (expectedPath r)"
    using resolveIncludePath_exists[of e document "grp 1 m" "grp 2 m" workspaceRoot]
    by (auto simp: includeDiagnostics_def Let_def r_def split: if_splits)
  have 3: "circular r = (exists r \<and> fst (checkCircularIncludes_calls e (fileName document) (expectedPath r) {}))"
    unfolding r_def calls_fst by (rule resolveIncludePath_circular)
  have 4: "exists r \<longrightarrow> (\<forall>f \<in> set (snd (checkCircularIncludes_calls e (fileName document) (expectedPath r) {})). existsSync e f)"
    using resolveIncludePath_exists[of e document "grp 1 m" "grp 2 m" workspaceRoot]
      calls_exist(1)[of e "expectedPath r" "fileName document" "{}"]
    unfolding r_def by blast
  from 1 2 3 4 show ?thesis unfolding Let_def r_def by blast
qed

section \<open>Properties of template resolution\<close>






text \<open>
  The completion provider tests the three candidates without appending \<open>.html\<close>: for the
  reference \<open>base\<close> it finds no parent where the diagnostics engine finds layouts/base.html.
\<close>

lemma completion_provider_appends_nothing:
  "completion_findExtendedTemplate site (doc ''/w/src/index.html'' site_text) = None
   \<and> findExtendedTemplate site (doc ''/w/src/index.html'' site_text)
       = Some ''/w/src/layouts/base.html''"
  by code_simp

section \<open>Properties of the slot stage\<close>

lemma concat_map_indexed:
  "concat (map (\<lambda>(i, l). concat (map (f i) (g l))) xs)
     = concat (map (\<lambda>(i, m). f i m) (concat (map (\<lambda>(i, l). map (Pair i) (g l)) xs)))"
  by (induction xs) (auto simp: comp_def)

lemma indexed_snd:
  "map snd (concat (map (\<lambda>(i, l). map (Pair i) (g l)) (enumerate n ls))) = concat (map g ls)"
  by (induction ls arbitrary: n) (auto simp: comp_def)

lemma slotDiagnostics_declared:
  "grp 1 m \<in> set availableSlots \<Longrightarrow> slotDiagnostics document availableSlots i m = []"
  by (simp add: slotDiagnostics_def Let_def)

lemma slotDiagnostics_undeclared:
  "grp 1 m \<notin> set availableSlots \<Longrightarrow> availableSlots \<noteq> [] \<Longrightarrow>
   \<exists>d. slotDiagnostics document availableSlots i m = [d] \<and> code d = ''undefined-slot'' \<and>
       severity d = Warning \<and>
       message d = ''Slot '' @ [sq] @ grp 1 m @ [sq] @ '' is not defined in the extended template'' \<and>
       map related_message (relatedInformation d)
         = [''Available slots: '' @ join_comma availableSlots]"
  by (simp add: slotDiagnostics_def Let_def)

lemma analyzeSlots_flat:
  assumes "findExtendedTemplate e document = Some parent" and "parent \<noteq> []"
    and "readFileSync e parent = Some parentText"
  shows "analyzeSlots e document lines =
     concat (map (\<lambda>(i, m). slotDiagnostics document (extractSlots parentText) i m)
       (concat (map (\<lambda>(i, l). map (Pair i) (matchAll slotRegex l 0)) (enumerate 0 lines))))"
  using assms by (simp add: analyzeSlots_def concat_map_indexed)

text \<open>In general the slot stage gives one finding for each use of an undeclared name.\<close>

lemma analyzeSlots_one_per_use:
  assumes "findExtendedTemplate e document = Some parent" and "parent \<noteq> []"
    and "readFileSync e parent = Some parentText"
  shows "length (analyzeSlots e document lines) =
     length (filter (\<lambda>n. n \<notin> set (extractSlots parentText))
       (map (grp 1) (concat (map (\<lambda>l. matchAll slotRegex l 0) lines))))"
proof -
  define us where "us = concat (map (\<lambda>(i, l). map (Pair i) (matchAll slotRegex l 0)) (enumerate 0 lines))"
  have "length (concat (map (\<lambda>(i, m). slotDiagnostics document avail i m) xs))
      = length (filter (\<lambda>n. n \<notin> set avail) (map (grp 1) (map snd xs)))" for avail xs
    by (induction xs) (auto simp: slotDiagnostics_def Let_def)
  then have "length (analyzeSlots e document lines)
      = length (filter (\<lambda>n. n \<notin> set (extractSlots parentText)) (map (grp 1) (map snd us)))"
    unfolding analyzeSlots_flat[OF assms] us_def by blast
  then show ?thesis unfolding us_def indexed_snd .
qed

text \<open>
  C6 (slot comparison). The parent of the document resolves and can be read, it declares
  exactly the slots title and content, and the lines of the child use exactly the slots
  content and sidebar, each once. Then the slot stage yields exactly one finding: it has
  the code \<open>undefined-slot\<close> and warning severity, its message names sidebar, and its
  related information lists the declared slots of the parent. A used name is looked up
  among the declared names by equality of strings.
\<close>

theorem undefined_slot_reported:
  assumes "findExtendedTemplate e document = Some parent" and "parent \<noteq> []"
    and "readFileSync e parent = Some parentText"
    and "set (extractSlots parentText) = {''title'', ''content''}"
    and "distinct (map (grp 1) (concat (map (\<lambda>l. matchAll slotRegex l 0) lines)))"
    and "set (map (grp 1) (concat (map (\<lambda>l. matchAll slotRegex l 0) lines)))
           = {''content'', ''sidebar''}"
  shows "\<exists>d. analyzeSlots e document lines = [d] \<and> code d = ''undefined-slot'' \<and>
       severity d = Warning \<and>
       message d = ''Slot '' @ [sq] @ ''sidebar'' @ [sq] @ '' is not defined in the extended template'' \<and>
       map related_message (relatedInformation d)
         = [''Available slots: '' @ join_comma (extractSlots parentText)]"
proof -
  define avail where "avail = extractSlots parentText"
  define us where "us = concat (map (\<lambda>(i, l). map (Pair i) (matchAll slotRegex l 0)) (enumerate 0 lines))"
  define names where "names = map (grp 1) (map snd us)"
  have flat: "analyzeSlots e document lines
      = concat (map (\<lambda>(i, m). slotDiagnostics document avail i m) us)"
    unfolding avail_def us_def by (rule analyzeSlots_flat[OF assms(1,2,3)])
  have names: "names = map (grp 1) (concat (map (\<lambda>l. matchAll slotRegex l 0) lines))"
    unfolding names_def us_def indexed_snd ..
  have d: "distinct names" and s: "set names = {''content'', ''sidebar''}"
    using assms(5,6) unfolding names by simp_all
  have av: "set avail = {''title'', ''content''}" using assms(4) unfolding avail_def .
  have ne: "avail \<noteq> []"
  proof
    assume "avail = []"
    with av show False by simp
  qed
  have in_c: "''content'' \<in> set avail" and out_s: "''sidebar'' \<notin> set avail"
    unfolding av by simp_all
  have "length names = card (set names)" using d by (simp add: distinct_card)
  also have "\<dots> = 2" unfolding s by simp
  finally have "length us = 2" unfolding names_def by simp
  then obtain u1 u2 where us: "us = [u1, u2]"
    by (cases us; cases "tl us") auto
  obtain i1 m1 i2 m2 where u: "u1 = (i1, m1)" "u2 = (i2, m2)"
    by (cases u1; cases u2) auto
  have n2: "names = [grp 1 m1, grp 1 m2]" unfolding names_def us u by simp
  from s n2 have "{grp 1 m1, grp 1 m2} = {''content'', ''sidebar''}" by simp
  then consider (a) "grp 1 m1 = ''content''" "grp 1 m2 = ''sidebar''"
    | (b) "grp 1 m1 = ''sidebar''" "grp 1 m2 = ''content''"
    by (auto simp: doubleton_eq_iff)
  then show ?thesis
  proof cases
    case a
    from slotDiagnostics_declared[of m1 avail document i1] in_c a
    have 1: "slotDiagnostics document avail i1 m1 = []" by simp
    from slotDiagnostics_undeclared[of m2 avail document i2] out_s a ne
    obtain d where "slotDiagnostics document avail i2 m2 = [d]" "code d = ''undefined-slot''"
      "severity d = Warning"
      "message d = ''Slot '' @ [sq] @ ''sidebar'' @ [sq] @ '' is not defined in the extended template''"
      "map related_message (relatedInformation d) = [''Available slots: '' @ join_comma avail]"
      by auto
    with 1 show ?thesis unfolding flat us u avail_def[symmetric] by simp
  next
    case b
    from slotDiagnostics_declared[of m2 avail document i2] in_c b
    have 1: "slotDiagnostics document avail i2 m2 = []" by simp
    from slotDiagnostics_undeclared[of m1 avail document i1] out_s b ne
    obtain d where "slotDiagnostics document avail i1 m1 = [d]" "code d = ''undefined-slot''"
      "severity d = Warning"
      "message d = ''Slot '' @ [sq] @ ''sidebar'' @ [sq] @ '' is not defined in the extended template''"
      "map related_message (relatedInformation d) = [''Available slots: '' @ join_comma avail]"
      by auto
    with 1 show ?thesis unfolding flat us u avail_def[symmetric] by simp
  qed
qed

theorem undefined_slot_reported_witness:
  "\<exists>d. analyzeSlots blog (doc ''/w/src/post.html'' post_text) post_lines = [d] \<and>
       code d = ''undefined-slot'' \<and> severity d = Warning \<and>
       message d = ''Slot '' @ [sq] @ ''sidebar'' @ [sq] @ '' is not defined in the extended template'' \<and>
       map related_message (relatedInformation d) = [''Available slots: title, content'']"
proof -
  have 1: "findExtendedTemplate blog (doc ''/w/src/post.html'' post_text)
             = Some ''/w/src/layouts/layout.html''"
    by code_simp
  have 2: "''/w/src/layouts/layout.html'' \<noteq> []" by simp
  have 3: "readFileSync blog ''/w/src/layouts/layout.html'' = Some layout_text"
    by code_simp
  have slots: "extractSlots layout_text = [''title'', ''content'']" by code_simp
  have used: "map (grp 1) (concat (map (\<lambda>l. matchAll slotRegex l 0) post_lines))
                = [''content'', ''sidebar'']"
    by code_simp
  have 4: "set (extractSlots layout_text) = {''title'', ''content''}"
    unfolding slots by simp
  have 5: "distinct (map (grp 1) (concat (map (\<lambda>l. matchAll slotRegex l 0) post_lines)))"
    unfolding used by simp
  have 6: "set (map (grp 1) (concat (map (\<lambda>l. matchAll slotRegex l 0) post_lines)))
             = {''content'', ''sidebar''}"
    unfolding used by simp
  from undefined_slot_reported[OF 1 2 3 4 5 6] show ?thesis
    unfolding slots by simp
qed

text \<open>Names are compared as they are written: \<open>Content\<close> does not fill \<open>content\<close>.\<close>

lemma slot_names_case_sensitive:
  \<open>map code (analyzeSlots blog (doc ''/w/src/post.html'' post_text)
      [''<template slot="Content">Hello</template>'']) = [''undefined-slot'']\<close>
  by code_simp

section \<open>Where the patterns cannot match\<close>

lemma search_None:
  "(\<And>k. k \<le> length s \<Longrightarrow> rmatch r (drop k s, []) = []) \<Longrightarrow> search r i s = None"
proof (induction s arbitrary: i)
  case Nil
  from Nil[of 0] show ?case by simp
next
  case (Cons c cs)
  have "rmatch r (c # cs, []) = []" using Cons.prems[of 0] by simp
  moreover have "search r (Suc i) cs = None"
  proof (rule Cons.IH)
    fix k assume "k \<le> length cs"
    then show "rmatch r (drop k cs, []) = []" using Cons.prems[of "Suc k"] by simp
  qed
  ultimately show ?case by simp
qed

lemma rmatch_first_char:
  "s = [] \<or> hd s \<noteq> c \<Longrightarrow> rmatch (Seq (Lit (c # l)) r) (s, g) = []"
  by (cases s) auto

lemma exec_None:
  assumes "rmatch r (c # s, []) = []"
    and "\<And>t g. t = [] \<or> hd t \<noteq> c \<Longrightarrow> rmatch r (t, g) = []"
    and "c \<notin> set s"
  shows "exec r (c # s) 0 = None"
proof -
  have "rmatch r (drop k (c # s), []) = []" for k
  proof (cases k)
    case 0
    with assms(1) show ?thesis by simp
  next
    case (Suc j)
    have "drop j s = [] \<or> hd (drop j s) \<noteq> c"
    proof (cases "drop j s")
      case Nil then show ?thesis by simp
    next
      case (Cons x xs)
      then have "x \<in> set (drop j s)" by simp
      then have "x \<in> set s" by (rule in_set_dropD)
      with assms(3) Cons show ?thesis by auto
    qed
    from assms(2)[OF this] Suc show ?thesis by simp
  qed
  then have "search r 0 (c # s) = None" by (intro search_None)
  then show ?thesis by (simp add: exec_def)
qed

lemma include_at0:
  assumes "in_cls Space w" "attr = ''virtual'' \<or> attr = ''file''"
  shows "rmatch includeRx (''<!--#include'' @ [w] @ attr @ ''='' @ [sq] @ rest, []) = []"
  using assms by (auto simp: includeRx_def)

lemma invalid_at0:
  assumes "in_cls Space w" "attr = ''virtual'' \<or> attr = ''file''"
  shows "rmatch includeWithInvalidChars (''<!--#include'' @ [w] @ attr @ ''='' @ [sq] @ rest, []) = []"
  using assms by (auto simp: includeWithInvalidChars_def)

lemma malformed_at0:
  assumes "in_cls Space w" "attr = ''virtual'' \<or> attr = ''file''"
  shows "rmatch malformedInclude (''<!--#include'' @ [w] @ attr @ ''='' @ [sq] @ rest, []) = []"
  using assms by (auto simp: malformedInclude_def)

lemma template_at0:
  shows "rmatch templateRx (''<!--#include'' @ rest, []) = []"
    "rmatch slotRx (''<!--#include'' @ rest, []) = []"
    "rmatch openTemplate (''<!--#include'' @ rest, []) = []"
  by (simp_all add: templateRx_def slotRx_def openTemplate_def)

section \<open>Where the findings of a stage come from\<close>

lemma in_lines:
  "d \<in> set (concat (map (\<lambda>(j, l). F j l) (enumerate 0 ls))) \<Longrightarrow>
     \<exists>j < length ls. d \<in> set (F j (ls ! j))"
  by (auto simp: in_set_enumerate_eq)

lemma includeDiagnostics_shape:
  "d \<in> set (includeDiagnostics e document workspaceRoot i m) \<Longrightarrow>
     startLine d = i \<and> startColumn d = index m \<and> stage d = 0"
  by (auto simp: includeDiagnostics_def Let_def startLine_def startColumn_def stage_def
      split: if_splits)

lemma templateDiagnostics_shape:
  "d \<in> set (templateDiagnostics e document workspaceRoot i m) \<Longrightarrow>
     startLine d = i \<and> startColumn d = index m \<and> stage d = 1"
  by (auto simp: templateDiagnostics_def Let_def startLine_def startColumn_def stage_def
      split: if_splits)

lemma slotDiagnostics_shape:
  "d \<in> set (slotDiagnostics document availableSlots i m) \<Longrightarrow>
     startLine d = i \<and> startColumn d = index m \<and> stage d = 2"
  by (auto simp: slotDiagnostics_def Let_def startLine_def startColumn_def stage_def
      split: if_splits)

lemma syntaxFinding_shape:
  "d \<in> set (syntaxFinding r msg sev c i l) \<Longrightarrow> startLine d = i \<and> code d = c"
  by (auto simp: syntaxFinding_def startLine_def split: option.splits)

lemma syntaxDiagnostics_shape:
  "d \<in> set (syntaxDiagnostics i l) \<Longrightarrow> startLine d = i \<and> stage d = 3"
  by (auto simp: syntaxDiagnostics_def stage_def dest!: syntaxFinding_shape)

lemma analyzeIncludes_cases:
  "analyzeIncludes e document ls = [] \<or>
   (\<exists>workspaceRoot. analyzeIncludes e document ls =
      concat (map (\<lambda>(i, l).
         concat (map (includeDiagnostics e document workspaceRoot i) (matchAll includeRegex l 0)))
       (enumerate 0 ls)))"
  unfolding analyzeIncludes_def
  by (cases "getWorkspaceFolder e (uri document)"; cases "the (getWorkspaceFolder e (uri document)) = []")
     (simp_all only: option.case if_True if_False option.sel simp_thms, blast+)

lemma analyzeTemplates_cases:
  "analyzeTemplates e document ls = [] \<or>
   (\<exists>workspaceRoot. analyzeTemplates e document ls =
      concat (map (\<lambda>(i, l).
         concat (map (templateDiagnostics e document workspaceRoot i) (matchAll templateRegex l 0)))
       (enumerate 0 ls)))"
  unfolding analyzeTemplates_def
  by (cases "getWorkspaceFolder e (uri document)"; cases "the (getWorkspaceFolder e (uri document)) = []")
     (simp_all only: option.case if_True if_False option.sel simp_thms, blast+)

lemma analyzeSlots_cases:
  "analyzeSlots e document ls = [] \<or>
   (\<exists>availableSlots. analyzeSlots e document ls =
      concat (map (\<lambda>(i, l).
         concat (map (slotDiagnostics document availableSlots i) (matchAll slotRegex l 0)))
       (enumerate 0 ls)))"
  unfolding analyzeSlots_def
  by (cases "findExtendedTemplate e document"; cases "the (findExtendedTemplate e document) = []";
      cases "readFileSync e (the (findExtendedTemplate e document))")
     (simp_all only: option.case if_True if_False option.sel simp_thms, blast+)

lemma analyzeIncludes_line:
  assumes "d \<in> set (analyzeIncludes e document ls)"
  shows "startLine d < length ls \<and> stage d = 0 \<and>
     (\<exists>m \<in> set (matchAll includeRegex (ls ! startLine d) 0). startColumn d = index m)"
proof -
  from assms analyzeIncludes_cases[of e document ls] obtain workspaceRoot where
    "d \<in> set (concat (map (\<lambda>(i, l).
         concat (map (includeDiagnostics e document workspaceRoot i) (matchAll includeRegex l 0)))
       (enumerate 0 ls)))"
    by fastforce
  from in_lines[OF this] obtain j where j: "j < length ls"
    and "d \<in> set (concat (map (includeDiagnostics e document workspaceRoot j)
            (matchAll includeRegex (ls ! j) 0)))"
    by blast
  then obtain m where m: "m \<in> set (matchAll includeRegex (ls ! j) 0)"
    and d: "d \<in> set (includeDiagnostics e document workspaceRoot j m)"
    by auto
  from includeDiagnostics_shape[OF d] j m show ?thesis by auto
qed

lemma analyzeTemplates_line:
  assumes "d \<in> set (analyzeTemplates e document ls)"
  shows "startLine d < length ls \<and> stage d = 1 \<and>
     (\<exists>m \<in> set (matchAll templateRegex (ls ! startLine d) 0). startColumn d = index m)"
proof -
  from assms analyzeTemplates_cases[of e document ls] obtain workspaceRoot where
    "d \<in> set (concat (map (\<lambda>(i, l).
         concat (map (templateDiagnostics e document workspaceRoot i) (matchAll templateRegex l 0)))
       (enumerate 0 ls)))"
    by fastforce
  from in_lines[OF this] obtain j where j: "j < length ls"
    and "d \<in> set (concat (map (templateDiagnostics e document workspaceRoot j)
            (matchAll templateRegex (ls ! j) 0)))"
    by blast
  then obtain m where m: "m \<in> set (matchAll templateRegex (ls ! j) 0)"
    and d: "d \<in> set (templateDiagnostics e document workspaceRoot j m)"
    by auto
  from templateDiagnostics_shape[OF d] j m show ?thesis by auto
qed

lemma analyzeSlots_line:
  assumes "d \<in> set (analyzeSlots e document ls)"
  shows "startLine d < length ls \<and> stage d = 2 \<and>
     (\<exists>m \<in> set (matchAll slotRegex (ls ! startLine d) 0). startColumn d = index m)"
proof -
  from assms analyzeSlots_cases[of e document ls] obtain availableSlots where
    "d \<in> set (concat (map (\<lambda>(i, l).
         concat (map (slotDiagnostics document availableSlots i) (matchAll slotRegex l 0)))
       (enumerate 0 ls)))"
    by fastforce
  from in_lines[OF this] obtain j where j: "j < length ls"
    and "d \<in> set (concat (map (slotDiagnostics document availableSlots j)
            (matchAll slotRegex (ls ! j) 0)))"
    by blast
  then obtain m where m: "m \<in> set (matchAll slotRegex (ls ! j) 0)"
    and d: "d \<in> set (slotDiagnostics document availableSlots j m)"
    by auto
  from slotDiagnostics_shape[OF d] j m show ?thesis by auto
qed

lemma analyzeSyntax_line:
  assumes "d \<in> set (analyzeSyntax document ls)"
  shows "startLine d < length ls \<and> stage d = 3 \<and> d \<in> set (syntaxDiagnostics (startLine d) (ls ! startLine d))"
proof -
  from assms have "d \<in> set (concat (map (\<lambda>(i, l). syntaxDiagnostics i l) (enumerate 0 ls)))"
    by (simp add: analyzeSyntax_def)
  from in_lines[OF this] obtain j where j: "j < length ls"
    and d: "d \<in> set (syntaxDiagnostics j (ls ! j))"
    by auto
  from syntaxDiagnostics_shape[OF d] j d show ?thesis by auto
qed

lemma matchAll_None:
  "exec (Rep_regex r) s 0 = None \<Longrightarrow> matchAll r s 0 = []"
  by (simp add: matchAll.simps)

lemma first_char_include:
  "t = [] \<or> hd t \<noteq> CHR ''<'' \<Longrightarrow> rmatch includeRx (t, g) = []"
  "t = [] \<or> hd t \<noteq> CHR ''<'' \<Longrightarrow> rmatch includeWithInvalidChars (t, g) = []"
  "t = [] \<or> hd t \<noteq> CHR ''<'' \<Longrightarrow> rmatch malformedInclude (t, g) = []"
  by (cases t; auto simp: includeRx_def includeWithInvalidChars_def malformedInclude_def)+

lemma first_char_template:
  "t = [] \<or> hd t \<noteq> CHR ''<'' \<Longrightarrow> rmatch templateRx (t, g) = []"
  "t = [] \<or> hd t \<noteq> CHR ''<'' \<Longrightarrow> rmatch slotRx (t, g) = []"
  "t = [] \<or> hd t \<noteq> CHR ''<'' \<Longrightarrow> rmatch openTemplate (t, g) = []"
  by (cases t; auto simp: templateRx_def slotRx_def openTemplate_def)+

lemma single_quoted_no_match:
  assumes w: "in_cls Space w" and attr: "attr = ''virtual'' \<or> attr = ''file''"
    and rest: "CHR ''<'' \<notin> set rest"
  defines "l \<equiv> ''<!--#include'' @ [w] @ attr @ ''='' @ [sq] @ rest"
  shows "exec includeRx l 0 = None" "exec templateRx l 0 = None" "exec slotRx l 0 = None"
    "exec malformedInclude l 0 = None" "exec openTemplate l 0 = None"
    "exec includeWithInvalidChars l 0 = None"
proof -
  define s where "s = ''!--#include'' @ [w] @ attr @ ''='' @ [sq] @ rest"
  have l: "l = CHR ''<'' # s" by (simp add: l_def s_def)
  have s: "CHR ''<'' \<notin> set s" using w attr rest by (auto simp: s_def)
  have l': "CHR ''<'' # s = ''<!--#include'' @ [w] @ attr @ ''='' @ [sq] @ rest"
    by (simp add: s_def)
  have l'': "CHR ''<'' # s = ''<!--#include'' @ ([w] @ attr @ ''='' @ [sq] @ rest)"
    by (simp add: s_def)
  show "exec includeRx l 0 = None" unfolding l
    by (rule exec_None[OF _ first_char_include(1) s], unfold l', rule include_at0[OF w attr])
  show "exec includeWithInvalidChars l 0 = None" unfolding l
    by (rule exec_None[OF _ first_char_include(2) s], unfold l', rule invalid_at0[OF w attr])
  show "exec malformedInclude l 0 = None" unfolding l
    by (rule exec_None[OF _ first_char_include(3) s], unfold l', rule malformed_at0[OF w attr])
  show "exec templateRx l 0 = None" unfolding l
    by (rule exec_None[OF _ first_char_template(1) s], unfold l'', rule template_at0)
  show "exec slotRx l 0 = None" unfolding l
    by (rule exec_None[OF _ first_char_template(2) s], unfold l'', rule template_at0)
  show "exec openTemplate l 0 = None" unfolding l
    by (rule exec_None[OF _ first_char_template(3) s], unfold l'', rule template_at0)
qed

section \<open>Single-quoted include directives\<close>

text \<open>
  C10 (a single-quoted include directive is ignored). An include directive whose path
  is in single quotes leaves no trace in the report: the include scanner does not match
  it, and the check for malformed directives rejects attribute names other than
  \<open>virtual=\<close> and \<open>file=\<close> only. The code breaks this where two whitespace characters
  stand between \<open>#include\<close> and the attribute: the malformed-directive pattern matches
  after \<open>\s+\<close> gives one character back, where the lookahead sees whitespace and not
  \<open>virtual=\<close>, and the directive is reported as \<open>malformed-include\<close>.
\<close>

theorem two_spaces_reported_malformed:
  \<open>analyzeDocument lonely (doc ''/w/src/index.html'' two_spaces_text) =
     [\<lparr>drange = VRange (Position 0 0) (Position 0 13),
       message = ''Malformed include directive. Use virtual="path" or file="path"'',
       severity = Error, code = ''malformed-include'', source = ''Unify'',
       relatedInformation = []\<rparr>]\<close>
  by code_simp

text \<open>The same pattern flags a well-formed directive that has two spaces.\<close>

lemma well_formed_two_spaces_reported_malformed:
  "map code (analyzeDocument lonely (doc ''/w/src/index.html'' two_spaces_well_formed))
     = [''include-not-found'', ''malformed-include'']"
  by code_simp

text \<open>
  After exactly one whitespace character the directive is ignored wherever it stands on
  a line: none of the three include patterns matches at its start.
\<close>

lemma single_quoted_construct_unmatched:
  assumes "in_cls Space w" and "attr = ''virtual'' \<or> attr = ''file''"
  shows "rmatch includeRx (''<!--#include'' @ [w] @ attr @ ''='' @ [sq] @ rest, g) = []
     \<and> rmatch malformedInclude (''<!--#include'' @ [w] @ attr @ ''='' @ [sq] @ rest, g) = []
     \<and> rmatch includeWithInvalidChars (''<!--#include'' @ [w] @ attr @ ''='' @ [sq] @ rest, g) = []"
  using assms by (auto simp: includeRx_def malformedInclude_def includeWithInvalidChars_def)

text \<open>
  A line that is such a directive, with no further \<open><\<close> after it, gets no finding of any
  stage.
\<close>

lemma single_quoted_include_ignored:
  assumes "in_cls Space w" and "attr = ''virtual'' \<or> attr = ''file''"
    and "CHR ''<'' \<notin> set rest"
    and "i < length (split_lines (getText document))"
    and "split_lines (getText document) ! i = ''<!--#include'' @ [w] @ attr @ ''='' @ [sq] @ rest"
  shows "matchAll includeRegex (split_lines (getText document) ! i) 0 = []
     \<and> (\<forall>d \<in> set (analyzeDocument e document). startLine d \<noteq> i)"
proof -
  define ls where "ls = split_lines (getText document)"
  note none = single_quoted_no_match[OF assms(1,2,3), folded assms(5), folded ls_def]
  have inc: "matchAll includeRegex (ls ! i) 0 = []"
    by (rule matchAll_None) (simp add: includeRegex.rep_eq none)
  have tem: "matchAll templateRegex (ls ! i) 0 = []"
    by (rule matchAll_None) (simp add: templateRegex.rep_eq none)
  have slo: "matchAll slotRegex (ls ! i) 0 = []"
    by (rule matchAll_None) (simp add: slotRegex.rep_eq none)
  have syn: "syntaxDiagnostics i (ls ! i) = []"
    by (simp add: syntaxDiagnostics_def syntaxFinding_def none)
  have "startLine d \<noteq> i" if d: "d \<in> set (analyzeDocument e document)" for d
  proof
    assume i: "startLine d = i"
    from d consider "d \<in> set (analyzeIncludes e document ls)"
      | "d \<in> set (analyzeTemplates e document ls)"
      | "d \<in> set (analyzeSlots e document ls)"
      | "d \<in> set (analyzeSyntax document ls)"
      by (auto simp: analyzeDocument_def Let_def ls_def)
    then show False
    proof cases
      case 1
      from analyzeIncludes_line[OF 1] i inc show False by simp
    next
      case 2
      from analyzeTemplates_line[OF 2] i tem show False by simp
    next
      case 3
      from analyzeSlots_line[OF 3] i slo show False by simp
    next
      case 4
      from analyzeSyntax_line[OF 4] i syn show False by simp
    qed
  qed
  with inc show ?thesis unfolding ls_def by blast
qed

lemma single_quoted_include_ignored_example:
  "matchAll includeRegex (split_lines quoted_text ! 1) 0 = []
   \<and> analyzeDocument lonely (doc ''/w/src/index.html'' quoted_text) \<noteq> []
   \<and> list_all (\<lambda>d. startLine d \<noteq> 1) (analyzeDocument lonely (doc ''/w/src/index.html'' quoted_text))"
proof -
  have 1: "in_cls Space (CHR '' '')" by simp
  have 2: "''virtual'' = ''virtual'' \<or> ''virtual'' = ''file''" by simp
  have 3: "CHR ''<'' \<notin> set (''x.html'' @ [sq] @ '' -->'')" by simp
  have t: "getText (doc ''/w/src/index.html'' quoted_text) = quoted_text"
    by (simp add: doc_def)
  have 4: "1 < length (split_lines (getText (doc ''/w/src/index.html'' quoted_text)))"
    unfolding t by code_simp
  have 5: "split_lines (getText (doc ''/w/src/index.html'' quoted_text)) ! 1
      = ''<!--#include'' @ [CHR '' ''] @ ''virtual'' @ ''='' @ [sq] @ (''x.html'' @ [sq] @ '' -->'')"
    unfolding t by code_simp
  have 6: "analyzeDocument lonely (doc ''/w/src/index.html'' quoted_text) \<noteq> []"
    by code_simp
  from single_quoted_include_ignored[OF 1 2 3 4 5, of lonely] 6 show ?thesis
    unfolding t list_all_iff by blast
qed

section \<open>The order of the findings\<close>

lemma exec_bounds:
  "exec r s i = Some m \<Longrightarrow>
     i \<le> index m \<and> index m + length (matched m) \<le> length s \<and> min_len r \<le> length (matched m)"
  using search_bounds[of r i "drop i s" m] by (auto simp: exec_def split: if_splits)

lemma matchAll_sorted:
  "sorted_wrt (\<lambda>a b. index a < index b) (matchAll r s i) \<and> (\<forall>m \<in> set (matchAll r s i). i \<le> index m)"
proof (induction r s i rule: matchAll.induct)
  case (1 r s lastIndex)
  show ?case
  proof (cases "exec (Rep_regex r) s lastIndex")
    case None
    then show ?thesis by (simp add: matchAll.simps)
  next
    case (Some m)
    from exec_bounds[OF Some] Rep_regex[of r]
    have b: "lastIndex \<le> index m" "0 < length (matched m)" by auto
    have eq: "matchAll r s lastIndex = m # matchAll r s (index m + length (matched m))"
      by (subst matchAll.simps) (simp add: Some)
    from "1.IH"[OF Some]
    have srt: "sorted_wrt (\<lambda>a b. index a < index b) (matchAll r s (index m + length (matched m)))"
      and later: "\<forall>m' \<in> set (matchAll r s (index m + length (matched m))).
                   index m + length (matched m) \<le> index m'"
      by blast+
    have 1: "\<forall>m' \<in> set (matchAll r s (index m + length (matched m))). index m < index m'"
    proof
      fix m' assume "m' \<in> set (matchAll r s (index m + length (matched m)))"
      with later have "index m + length (matched m) \<le> index m'" by blast
      with b(2) show "index m < index m'" by linarith
    qed
    from 1 b(1) have 2: "\<forall>m' \<in> set (matchAll r s (index m + length (matched m))). lastIndex \<le> index m'"
      by (meson le_less_trans less_imp_le)
    from srt 1 2 b(1) show ?thesis
      unfolding eq by simp
  qed
qed

lemma sorted_wrt_concat_map:
  assumes "sorted_wrt Q xs"
    and "\<And>x. x \<in> set xs \<Longrightarrow> sorted_wrt P (G x)"
    and "\<And>x y a b. Q x y \<Longrightarrow> a \<in> set (G x) \<Longrightarrow> b \<in> set (G y) \<Longrightarrow> P a b"
  shows "sorted_wrt P (concat (map G xs))"
  using assms by (induction xs) (auto simp: sorted_wrt_append)

lemma enumerate_sorted: "sorted_wrt (\<lambda>x y. fst x < fst y) (enumerate n ls)"
  by (induction ls arbitrary: n) (auto simp: in_set_enumerate_eq)

lemma sorted_wrt_short: "length xs \<le> 1 \<Longrightarrow> sorted_wrt P xs"
  by (cases xs) auto

lemma stage_sorted:
  assumes shape: "\<And>i m d. d \<in> set (D i m) \<Longrightarrow> startLine d = i \<and> startColumn d = index m \<and> stage d = k"
    and k: "k \<noteq> 3"
    and short: "\<And>i m. length (D i m) \<le> 1"
  shows "sorted_wrt reported_before
     (concat (map (\<lambda>(i, l). concat (map (D i) (matchAll r l 0))) (enumerate 0 ls)))"
proof (rule sorted_wrt_concat_map[OF enumerate_sorted])
  fix x :: "nat \<times> string"
  obtain i l where x: "x = (i, l)" by (cases x)
  have "sorted_wrt reported_before (concat (map (D i) (matchAll r l 0)))"
  proof (rule sorted_wrt_concat_map[of "\<lambda>a b. index a < index b"])
    show "sorted_wrt (\<lambda>a b. index a < index b) (matchAll r l 0)"
      using matchAll_sorted[of r l 0] by blast
  next
    fix m show "sorted_wrt reported_before (D i m)" by (rule sorted_wrt_short[OF short])
  next
    fix m m' a b
    assume "index m < index m'" "a \<in> set (D i m)" "b \<in> set (D i m')"
    with shape[of a i m] shape[of b i m'] k show "reported_before a b"
      by (simp add: reported_before_def)
  qed
  then show "sorted_wrt reported_before (case x of (i, l) \<Rightarrow> concat (map (D i) (matchAll r l 0)))"
    by (simp add: x)
next
  fix x y :: "nat \<times> string" and a b
  obtain i l j l' where x: "x = (i, l)" "y = (j, l')" by (cases x; cases y) auto
  assume "fst x < fst y"
    and "a \<in> set (case x of (i, l) \<Rightarrow> concat (map (D i) (matchAll r l 0)))"
    and "b \<in> set (case y of (i, l) \<Rightarrow> concat (map (D i) (matchAll r l 0)))"
  then obtain m m' where "i < j" "a \<in> set (D i m)" "b \<in> set (D j m')"
    by (auto simp: x)
  with shape[of a i m] shape[of b j m'] show "reported_before a b"
    by (simp add: reported_before_def)
qed

lemma diagnostics_short:
  "length (includeDiagnostics e document workspaceRoot i m) \<le> 1"
  "length (templateDiagnostics e document workspaceRoot i m) \<le> 1"
  "length (slotDiagnostics document availableSlots i m) \<le> 1"
  "length (syntaxFinding r msg sev c i l) \<le> 1"
  by (simp_all add: includeDiagnostics_def templateDiagnostics_def slotDiagnostics_def
      syntaxFinding_def Let_def split: option.splits)

lemma analyzeIncludes_sorted: "sorted_wrt reported_before (analyzeIncludes e document ls)"
proof -
  from analyzeIncludes_cases[of e document ls] show ?thesis
  proof (elim disjE exE)
    assume "analyzeIncludes e document ls = []"
    then show ?thesis by simp
  next
    fix workspaceRoot
    assume eq: "analyzeIncludes e document ls =
      concat (map (\<lambda>(i, l).
         concat (map (includeDiagnostics e document workspaceRoot i) (matchAll includeRegex l 0)))
       (enumerate 0 ls))"
    show ?thesis unfolding eq
      by (rule stage_sorted[where k = 0]) (erule includeDiagnostics_shape, simp, rule diagnostics_short)
  qed
qed

lemma analyzeTemplates_sorted: "sorted_wrt reported_before (analyzeTemplates e document ls)"
proof -
  from analyzeTemplates_cases[of e document ls] show ?thesis
  proof (elim disjE exE)
    assume "analyzeTemplates e document ls = []"
    then show ?thesis by simp
  next
    fix workspaceRoot
    assume eq: "analyzeTemplates e document ls =
      concat (map (\<lambda>(i, l).
         concat (map (templateDiagnostics e document workspaceRoot i) (matchAll templateRegex l 0)))
       (enumerate 0 ls))"
    show ?thesis unfolding eq
      by (rule stage_sorted[where k = 1]) (erule templateDiagnostics_shape, simp, rule diagnostics_short)
  qed
qed

lemma analyzeSlots_sorted: "sorted_wrt reported_before (analyzeSlots e document ls)"
proof -
  from analyzeSlots_cases[of e document ls] show ?thesis
  proof (elim disjE exE)
    assume "analyzeSlots e document ls = []"
    then show ?thesis by simp
  next
    fix availableSlots
    assume eq: "analyzeSlots e document ls =
      concat (map (\<lambda>(i, l).
         concat (map (slotDiagnostics document availableSlots i) (matchAll slotRegex l 0)))
       (enumerate 0 ls))"
    show ?thesis unfolding eq
      by (rule stage_sorted[where k = 2]) (erule slotDiagnostics_shape, simp, rule diagnostics_short)
  qed
qed

lemma syntaxDiagnostics_sorted: "sorted_wrt reported_before (syntaxDiagnostics i l)"
proof -
  define A where \<open>A = syntaxFinding malformedInclude
       ''Malformed include directive. Use virtual="path" or file="path"''
       Error ''malformed-include'' i l\<close>
  define B where "B = syntaxFinding openTemplate ''Template tag may not be properly closed''
       Information ''unclosed-template'' i l"
  define C where "C = syntaxFinding includeWithInvalidChars ''Include path contains invalid characters''
       Error ''invalid-path-chars'' i l"
  have eq: "syntaxDiagnostics i l = A @ B @ C"
    by (simp add: syntaxDiagnostics_def A_def B_def C_def)
  have rank: "reported_before a b"
    if "startLine a = i \<and> stage a = 3 \<and> syntaxRank a = j"
      "startLine b = i \<and> stage b = 3 \<and> syntaxRank b = k" "j < k"
    for a b j k
    using that by (simp add: reported_before_def)
  have A: "startLine d = i \<and> stage d = 3 \<and> syntaxRank d = 0" if "d \<in> set A" for d
    using syntaxFinding_shape[OF that[unfolded A_def]] by (simp add: stage_def syntaxRank_def)
  have B: "startLine d = i \<and> stage d = 3 \<and> syntaxRank d = 1" if "d \<in> set B" for d
    using syntaxFinding_shape[OF that[unfolded B_def]] by (simp add: stage_def syntaxRank_def)
  have C: "startLine d = i \<and> stage d = 3 \<and> syntaxRank d = 2" if "d \<in> set C" for d
    using syntaxFinding_shape[OF that[unfolded C_def]] by (simp add: stage_def syntaxRank_def)
  have s: "sorted_wrt reported_before A" "sorted_wrt reported_before B"
    "sorted_wrt reported_before C"
    unfolding A_def B_def C_def by (rule sorted_wrt_short, rule diagnostics_short)+
  have AB: "reported_before a b" if "a \<in> set A" "b \<in> set B" for a b
    by (rule rank[OF A[OF that(1)] B[OF that(2)]]) simp
  have AC: "reported_before a b" if "a \<in> set A" "b \<in> set C" for a b
    by (rule rank[OF A[OF that(1)] C[OF that(2)]]) simp
  have BC: "reported_before a b" if "a \<in> set B" "b \<in> set C" for a b
    by (rule rank[OF B[OF that(1)] C[OF that(2)]]) simp
  show ?thesis
    unfolding eq sorted_wrt_append using s AB AC BC by auto
qed

lemma analyzeSyntax_sorted: "sorted_wrt reported_before (analyzeSyntax document ls)"
  unfolding analyzeSyntax_def
proof (rule sorted_wrt_concat_map[OF enumerate_sorted])
  fix x :: "nat \<times> string"
  show "sorted_wrt reported_before (case x of (i, l) \<Rightarrow> syntaxDiagnostics i l)"
    by (cases x) (simp add: syntaxDiagnostics_sorted)
next
  fix x y :: "nat \<times> string" and a b
  assume "fst x < fst y" "a \<in> set (case x of (i, l) \<Rightarrow> syntaxDiagnostics i l)"
    "b \<in> set (case y of (i, l) \<Rightarrow> syntaxDiagnostics i l)"
  then show "reported_before a b"
    by (cases x; cases y) (auto simp: reported_before_def dest!: syntaxDiagnostics_shape)
qed

text \<open>
  C7, the claim as stated fails. The template tag is on line 0 and the include directive
  on line 1, and the finding for line 1 comes first in the report: the findings are not
  in ascending line order.
\<close>

theorem later_line_reported_first:
  "analyzeDocument lonely (doc ''/w/src/index.html'' unsorted_text) =
     [\<lparr>drange = VRange (Position 1 0) (Position 1 33),
       message = ''Include file not found: gone.html'',
       severity = Error, code = ''include-not-found'', source = ''Unify'',
       relatedInformation =
         [DiagnosticRelatedInformation ''file:///w/src/index.html''
            (VRange (Position 1 0) (Position 1 33)) ''Create missing include file: gone.html'']\<rparr>,
      \<lparr>drange = VRange (Position 0 0) (Position 0 25),
       message = ''Template not found: nope'',
       severity = Error, code = ''template-not-found'', source = ''Unify'',
       relatedInformation = []\<rparr>]"
  by code_simp

text \<open>
  C7 (order of the findings), as amended. The findings of a report form one list ordered
  by stage first, Include before Template before Slot before Syntax; within the include,
  template and slot stages by ascending line and then ascending column; within the
  syntax stage by ascending line and, on one line, in the order of the three checks
  (malformed include, unclosed template, invalid path characters).
\<close>

theorem findings_order: "sorted_wrt reported_before (analyzeDocument e document)"
proof -
  define ls where "ls = split_lines (getText document)"
  have cross: "reported_before a b" if "stage a < stage b" for a b
    using that by (simp add: reported_before_def)
  have "sorted_wrt reported_before
     (analyzeIncludes e document ls @ analyzeTemplates e document ls @
      analyzeSlots e document ls @ analyzeSyntax document ls)"
    unfolding sorted_wrt_append
    by (intro conjI ballI analyzeIncludes_sorted analyzeTemplates_sorted analyzeSlots_sorted
          analyzeSyntax_sorted cross)
       (auto dest!: analyzeIncludes_line analyzeTemplates_line analyzeSlots_line analyzeSyntax_line)
  then show ?thesis by (simp add: analyzeDocument_def Let_def ls_def)
qed

theorem findings_order_witness:
  "length (analyzeDocument lonely (doc ''/w/src/index.html'' unsorted_text)) = 2
   \<and> reported_before (analyzeDocument lonely (doc ''/w/src/index.html'' unsorted_text) ! 0)
        (analyzeDocument lonely (doc ''/w/src/index.html'' unsorted_text) ! 1)"
proof -
  have 1: "length (analyzeDocument lonely (doc ''/w/src/index.html'' unsorted_text)) = 2"
    by code_simp
  from findings_order[of lonely "doc ''/w/src/index.html'' unsorted_text"] 1
  have "reported_before (analyzeDocument lonely (doc ''/w/src/index.html'' unsorted_text) ! 0)
        (analyzeDocument lonely (doc ''/w/src/index.html'' unsorted_text) ! 1)"
    by (simp add: sorted_wrt_iff_nth_less)
  with 1 show ?thesis by blast
qed

section \<open>The first extends tag\<close>

lemma matchAll_first:
  "matchAll r s i = m # ms \<Longrightarrow> exec (Rep_regex r) s i = Some m"
  by (subst (asm) matchAll.simps) (simp split: option.splits)

lemma templateDiagnostics_codes:
  "d \<in> set (templateDiagnostics e document workspaceRoot i m) \<Longrightarrow>
     code d = ''template-not-found'' \<and> severity d = Error"
  by (auto simp: templateDiagnostics_def Let_def split: if_splits)

text \<open>
  Within one tag that carries two extends attributes the pattern has a single match, and
  its group is the last attribute: the greedy \<open>[^>]+\<close> gives back as little as it can.
\<close>

lemma last_attribute_of_a_tag:
  \<open>map (\<lambda>m. (index m, grp 1 m)) (matchAll templateRegex ''<template extends="a" extends="b">'' 0)
     = [(0, ''b'')]\<close>
  by code_simp

text \<open>
  C8, the claim as stated fails. Both extends tags of the document resolve, and the
  report is empty: the second tag gets no finding for being redundant.
\<close>

theorem second_extends_not_reported:
  "map (grp 1) (matchAll templateRegex twice_text 0) = [''base'', ''other'']
   \<and> analyzeDocument twice (doc ''/w/src/index.html'' twice_text) = []"
  by code_simp

text \<open>
  C8 (several extends tags in one document), as amended. Only the first match of the
  extends pattern in the text of the document, the one before all others in document
  order, names the parent that is resolved for the slot comparison; a document without
  a match has no parent. Later tags get no finding for being redundant: the template
  stage checks every tag on its own, and each of its findings is \<open>template-not-found\<close>
  with error severity. The analysis is a total function and never aborts.
\<close>

theorem first_extends_authoritative:
  "(matchAll templateRegex (getText document) 0 = m # ms \<longrightarrow>
      (\<forall>m' \<in> set ms. index m < index m') \<and>
      findExtendedTemplate e document =
        (case getWorkspaceFolder e (uri document) of
           None \<Rightarrow> None
         | Some workspaceRoot \<Rightarrow>
             if workspaceRoot = [] then None
             else resolveTemplatePath e document (grp 1 m) workspaceRoot))
   \<and> (matchAll templateRegex (getText document) 0 = [] \<longrightarrow>
        findExtendedTemplate e document = None)
   \<and> (\<forall>d \<in> set (analyzeTemplates e document lines).
        code d = ''template-not-found'' \<and> severity d = Error)"
proof (intro conjI impI)
  assume a: "matchAll templateRegex (getText document) 0 = m # ms"
  from matchAll_sorted[of templateRegex "getText document" 0]
  show "\<forall>m' \<in> set ms. index m < index m'" unfolding a by simp
  from matchAll_first[OF a] have "exec templateRx (getText document) 0 = Some m"
    by (simp add: templateRegex.rep_eq)
  then show "findExtendedTemplate e document =
        (case getWorkspaceFolder e (uri document) of
           None \<Rightarrow> None
         | Some workspaceRoot \<Rightarrow>
             if workspaceRoot = [] then None
             else resolveTemplatePath e document (grp 1 m) workspaceRoot)"
    by (simp add: findExtendedTemplate_def)
next
  assume "matchAll templateRegex (getText document) 0 = []"
  then have "exec templateRx (getText document) 0 = None"
    by (subst (asm) matchAll.simps) (simp add: templateRegex.rep_eq split: option.splits)
  then show "findExtendedTemplate e document = None"
    by (simp add: findExtendedTemplate_def)
next
  show "\<forall>d \<in> set (analyzeTemplates e document lines).
        code d = ''template-not-found'' \<and> severity d = Error"
  proof
    fix d assume d: "d \<in> set (analyzeTemplates e document lines)"
    from d analyzeTemplates_cases[of e document lines] obtain workspaceRoot where
      "d \<in> set (concat (map (\<lambda>(i, l).
         concat (map (templateDiagnostics e document workspaceRoot i) (matchAll templateRegex l 0)))
       (enumerate 0 lines)))"
      by fastforce
    from in_lines[OF this] obtain j where
      "d \<in> set (concat (map (templateDiagnostics e document workspaceRoot j)
            (matchAll templateRegex (lines ! j) 0)))"
      by blast
    then obtain m' where "d \<in> set (templateDiagnostics e document workspaceRoot j m')"
      by auto
    then show "code d = ''template-not-found'' \<and> severity d = Error"
      by (rule templateDiagnostics_codes)
  qed
qed

theorem first_extends_authoritative_witness:
  "map (grp 1) (matchAll templateRegex twice_text 0) = [''base'', ''other'']
   \<and> findExtendedTemplate twice (doc ''/w/src/index.html'' twice_text)
       = Some ''/w/src/layouts/base.html''
   \<and> findExtendedTemplate lonely (doc ''/w/src/index.html'' missing_text) = None
   \<and> analyzeTemplates lonely (doc ''/w/src/index.html'' unsorted_text) (split_lines unsorted_text) \<noteq> []
   \<and> list_all (\<lambda>d. code d = ''template-not-found'' \<and> severity d = Error)
        (analyzeTemplates lonely (doc ''/w/src/index.html'' unsorted_text) (split_lines unsorted_text))"
proof -
  define d where "d = doc ''/w/src/index.html'' twice_text"
  have t: "getText d = twice_text" by (simp add: d_def doc_def)
  have g: "map (grp 1) (matchAll templateRegex twice_text 0) = [''base'', ''other'']"
    by code_simp
  then obtain m ms where ms: "matchAll templateRegex (getText d) 0 = m # ms"
    and m: "grp 1 m = ''base''"
    unfolding t by (cases "matchAll templateRegex twice_text 0") auto
  have w: "getWorkspaceFolder twice (uri d) = Some ''/w''"
    by (simp add: twice_def workspace_def)
  have r: "resolveTemplatePath twice d ''base'' ''/w'' = Some ''/w/src/layouts/base.html''"
    unfolding d_def by code_simp
  from first_extends_authoritative[of d m ms twice] ms
  have "findExtendedTemplate twice d =
        (case getWorkspaceFolder twice (uri d) of
           None \<Rightarrow> None
         | Some workspaceRoot \<Rightarrow>
             if workspaceRoot = [] then None
             else resolveTemplatePath twice d (grp 1 m) workspaceRoot)"
    by blast
  then have 1: "findExtendedTemplate twice d = Some ''/w/src/layouts/base.html''"
    unfolding w m by (simp add: r)
  define k where "k = doc ''/w/src/index.html'' missing_text"
  have "matchAll templateRegex (getText k) 0 = []"
    unfolding k_def by code_simp
  with first_extends_authoritative[of k _ _ lonely]
  have 2: "findExtendedTemplate lonely k = None" by blast
  have 3: "analyzeTemplates lonely (doc ''/w/src/index.html'' unsorted_text) (split_lines unsorted_text) \<noteq> []"
    by code_simp
  from first_extends_authoritative
    [of "doc ''/w/src/index.html'' unsorted_text" _ _ lonely "split_lines unsorted_text"]
  have 4: "list_all (\<lambda>d. code d = ''template-not-found'' \<and> severity d = Error)
        (analyzeTemplates lonely (doc ''/w/src/index.html'' unsorted_text) (split_lines unsorted_text))"
    unfolding list_all_iff by blast
  from g 1 2 3 4 show ?thesis unfolding d_def k_def by blast
qed

section \<open>Running the analysis again\<close>

text \<open>
  C9 (analysis is deterministic and idempotent). The report is a function of the
  environment (file system, settings, workspace root) and the document alone: whatever
  the state of the extension, the report published for the document is
  \<open>analyzeDocument e document\<close>; a second run in the state the first one left publishes
  the same report, and leaves the whole diagnostic collection as the first run left it.
\<close>

theorem analysis_idempotent:
  "diagnostics (updateDiagnostics e st document) (uri document) = Some (analyzeDocument e document)
   \<and> diagnostics (updateDiagnostics e st' document) (uri document)
       = diagnostics (updateDiagnostics e st document) (uri document)
   \<and> diagnostics (updateDiagnostics e (updateDiagnostics e st document) document)
       = diagnostics (updateDiagnostics e st document)"
  by (simp add: updateDiagnostics_def Let_def)

theorem analysis_idempotent_witness:
  "diagnostics (updateDiagnostics lonely (updateDiagnostics lonely idle
       (doc ''/w/src/index.html'' missing_text)) (doc ''/w/src/index.html'' missing_text))
     ''file:///w/src/index.html''
   = Some [\<lparr>drange = VRange (Position 0 0) (Position 0 35),
       message = ''Include file not found: nav.html'',
       severity = Error, code = ''include-not-found'', source = ''Unify'',
       relatedInformation =
         [DiagnosticRelatedInformation ''file:///w/src/index.html''
            (VRange (Position 0 0) (Position 0 35)) ''Create missing include file: nav.html'']\<rparr>]"
proof -
  define d where "d = doc ''/w/src/index.html'' missing_text"
  have u: "uri d = ''file:///w/src/index.html''" by (simp add: d_def doc_def)
  have a: "analyzeDocument lonely d =
     [\<lparr>drange = VRange (Position 0 0) (Position 0 35),
       message = ''Include file not found: nav.html'',
       severity = Error, code = ''include-not-found'', source = ''Unify'',
       relatedInformation =
         [DiagnosticRelatedInformation ''file:///w/src/index.html''
            (VRange (Position 0 0) (Position 0 35)) ''Create missing include file: nav.html'']\<rparr>]"
    unfolding d_def by code_simp
  from analysis_idempotent[of lonely "updateDiagnostics lonely idle d" d]
  have "diagnostics (updateDiagnostics lonely (updateDiagnostics lonely idle d) d) (uri d)
          = Some (analyzeDocument lonely d)"
    by blast
  then have "diagnostics (updateDiagnostics lonely (updateDiagnostics lonely idle d) d)
      ''file:///w/src/index.html'' =  Some (analyzeDocument lonely d)"
    unfolding u .
  then show ?thesis unfolding a unfolding d_def .
qed

section \<open>Missing includes in the report\<close>

lemma sorted_wrt_inj:
  "sorted_wrt (\<lambda>a b. f a < (f b :: nat)) xs \<Longrightarrow> x \<in> set xs \<Longrightarrow> y \<in> set xs
     \<Longrightarrow> f x = f y \<Longrightarrow> x = y"
  by (induction xs) fastforce+

lemma matchAll_index_inj:
  "m \<in> set (matchAll r s i) \<Longrightarrow> m' \<in> set (matchAll r s i) \<Longrightarrow> index m = index m'
     \<Longrightarrow> m = m'"
  using matchAll_sorted[of r s i] sorted_wrt_inj[of index "matchAll r s i" m m'] by blast

lemma analyzeIncludes_in_folder:
  "getWorkspaceFolder e (uri document) = Some workspaceRoot \<Longrightarrow> workspaceRoot \<noteq> [] \<Longrightarrow>
   analyzeIncludes e document ls =
     concat (map (\<lambda>(i, l).
        concat (map (includeDiagnostics e document workspaceRoot i) (matchAll includeRegex l 0)))
      (enumerate 0 ls))"
  unfolding analyzeIncludes_def by (simp only: option.case if_False)

lemma in_linesI:
  "j < length ls \<Longrightarrow> d \<in> set (F j (ls ! j)) \<Longrightarrow>
     d \<in> set (concat (map (\<lambda>(j, l). F j l) (enumerate 0 ls)))"
  by (auto simp: in_set_enumerate_eq intro!: bexI[of _ "(j, ls ! j)"])

lemma circular_is_include:
  assumes "d \<in> set (analyzeDocument e document)" and "code d = ''circular-include''"
  shows "d \<in> set (analyzeIncludes e document (split_lines (getText document)))"
proof -
  define ls where "ls = split_lines (getText document)"
  have s: "stage d = 0" using assms(2) by (simp add: stage_def)
  from assms(1) consider "d \<in> set (analyzeIncludes e document ls)"
    | "d \<in> set (analyzeTemplates e document ls)"
    | "d \<in> set (analyzeSlots e document ls)"
    | "d \<in> set (analyzeSyntax document ls)"
    by (auto simp: analyzeDocument_def Let_def ls_def)
  then show ?thesis
  proof cases
    case 1 then show ?thesis unfolding ls_def .
  next
    case 2 from analyzeTemplates_line[OF 2] s show ?thesis by simp
  next
    case 3 from analyzeSlots_line[OF 3] s show ?thesis by simp
  next
    case 4 from analyzeSyntax_line[OF 4] s show ?thesis by simp
  qed
qed

lemma include_finding_origin:
  assumes "getWorkspaceFolder e (uri document) = Some workspaceRoot" and "workspaceRoot \<noteq> []"
    and "d \<in> set (analyzeIncludes e document ls)"
  shows "\<exists>i < length ls. \<exists>m \<in> set (matchAll includeRegex (ls ! i) 0).
           d \<in> set (includeDiagnostics e document workspaceRoot i m)"
proof -
  from assms(3) have "d \<in> set (concat (map (\<lambda>(i, l).
        concat (map (includeDiagnostics e document workspaceRoot i) (matchAll includeRegex l 0)))
      (enumerate 0 ls)))"
    unfolding analyzeIncludes_in_folder[OF assms(1,2)] .
  from in_lines[OF this] obtain j where "j < length ls"
    and "d \<in> set (concat (map (includeDiagnostics e document workspaceRoot j)
            (matchAll includeRegex (ls ! j) 0)))"
    by blast
  then show ?thesis by auto
qed

lemma include_finding_reported:
  assumes "getWorkspaceFolder e (uri document) = Some workspaceRoot" and "workspaceRoot \<noteq> []"
    and "i < length (split_lines (getText document))"
    and "m \<in> set (matchAll includeRegex (split_lines (getText document) ! i) 0)"
    and "d \<in> set (includeDiagnostics e document workspaceRoot i m)"
  shows "d \<in> set (analyzeDocument e document)"
proof -
  define ls where "ls = split_lines (getText document)"
  have "d \<in> set (concat (map (includeDiagnostics e document workspaceRoot i)
            (matchAll includeRegex (ls ! i) 0)))"
    using assms(4,5) unfolding ls_def by auto
  with assms(3) have "d \<in> set (concat (map (\<lambda>(i, l).
        concat (map (includeDiagnostics e document workspaceRoot i) (matchAll includeRegex l 0)))
      (enumerate 0 ls)))"
    unfolding ls_def[symmetric] by (intro in_linesI)
  then have "d \<in> set (analyzeIncludes e document ls)"
    unfolding analyzeIncludes_in_folder[OF assms(1,2)] .
  then show ?thesis by (simp add: analyzeDocument_def Let_def ls_def)
qed

lemma includeDiagnostics_missing:
  "\<not> exists (resolveIncludePath e document (grp 1 m) (grp 2 m) workspaceRoot) \<Longrightarrow>
   \<exists>d. includeDiagnostics e document workspaceRoot i m = [d] \<and> code d = ''include-not-found'' \<and>
       drange d = VRange (Position i (index m)) (Position i (index m + length (matched m)))"
  by (simp add: includeDiagnostics_def Let_def)

lemma includeDiagnostics_circular:
  "d \<in> set (includeDiagnostics e document workspaceRoot i m) \<Longrightarrow> code d = ''circular-include'' \<Longrightarrow>
     exists (resolveIncludePath e document (grp 1 m) (grp 2 m) workspaceRoot) \<and>
     circular (resolveIncludePath e document (grp 1 m) (grp 2 m) workspaceRoot)"
  by (auto simp: includeDiagnostics_def Let_def split: if_splits)

text \<open>
  C4, the claim as stated fails. The editor has no workspace folder for the document:
  the include stage returns at its guard, and the directive, whose reference resolves to
  no existing file, is not reported at all.
\<close>

theorem no_workspace_folder_reports_nothing:
  "getWorkspaceFolder outside (uri (doc ''/w/src/index.html'' missing_text)) = None
   \<and> map (grp 2) (matchAll includeRegex (split_lines missing_text ! 0) 0) = [''nav.html'']
   \<and> \<not> exists (resolveIncludePath outside (doc ''/w/src/index.html'' missing_text)
          ''virtual'' ''nav.html'' ''/w'')
   \<and> analyzeDocument outside (doc ''/w/src/index.html'' missing_text) = []"
  by code_simp


text \<open>
  C4 (cycle detection follows existing files only), as amended. The document lies in a
  workspace folder. Then every include directive of the document (a match \<open>m\<close> of the
  include pattern on line \<open>i\<close>) whose reference resolves to no existing file has an
  \<open>include-not-found\<close> finding in the report, at the range of the directive, and no
  \<open>circular-include\<close> finding of the report starts at the directive; every
  \<open>circular-include\<close> finding of the report starts at a directive whose reference exists
  and whose resolved path is on disk; the circular check of a reference is run only when
  the reference exists, from its resolved path; and every file the traversal is called
  on exists.
\<close>

theorem missing_include_never_circular:
  assumes "getWorkspaceFolder e (uri document) = Some workspaceRoot" and "workspaceRoot \<noteq> []"
  shows
    "(\<forall>i < length (split_lines (getText document)).
       \<forall>m \<in> set (matchAll includeRegex (split_lines (getText document) ! i) 0).
         \<not> exists (resolveIncludePath e document (grp 1 m) (grp 2 m) workspaceRoot) \<longrightarrow>
           (\<exists>d \<in> set (analyzeDocument e document).
              code d = ''include-not-found'' \<and>
              drange d = VRange (Position i (index m)) (Position i (index m + length (matched m))))
           \<and> (\<forall>d \<in> set (analyzeDocument e document).
                code d = ''circular-include'' \<longrightarrow> \<not> (startLine d = i \<and> startColumn d = index m)))
     \<and> (\<forall>d \<in> set (analyzeDocument e document).
           code d = ''circular-include'' \<longrightarrow>
             (\<exists>i < length (split_lines (getText document)).
                \<exists>m \<in> set (matchAll includeRegex (split_lines (getText document) ! i) 0).
                  startLine d = i \<and> startColumn d = index m \<and>
                  exists (resolveIncludePath e document (grp 1 m) (grp 2 m) workspaceRoot) \<and>
                  existsSync e
                    (expectedPath (resolveIncludePath e document (grp 1 m) (grp 2 m) workspaceRoot))))
     \<and> (\<forall>type includePath.
           circular (resolveIncludePath e document type includePath workspaceRoot) =
             (exists (resolveIncludePath e document type includePath workspaceRoot) \<and>
              fst (checkCircularIncludes_calls e (fileName document)
                    (expectedPath (resolveIncludePath e document type includePath workspaceRoot)) {}))
           \<and> (exists (resolveIncludePath e document type includePath workspaceRoot) \<longrightarrow>
                (\<forall>f \<in> set (snd (checkCircularIncludes_calls e (fileName document)
                     (expectedPath (resolveIncludePath e document type includePath workspaceRoot)) {})).
                   existsSync e f)))"
proof (intro conjI allI impI ballI)
  fix i m
  assume i: "i < length (split_lines (getText document))"
    and m: "m \<in> set (matchAll includeRegex (split_lines (getText document) ! i) 0)"
    and missing: "\<not> exists (resolveIncludePath e document (grp 1 m) (grp 2 m) workspaceRoot)"
  from includeDiagnostics_missing[OF missing, of i] obtain d where
    d: "includeDiagnostics e document workspaceRoot i m = [d]"
    and c: "code d = ''include-not-found''"
    and r: "drange d = VRange (Position i (index m)) (Position i (index m + length (matched m)))"
    by blast
  from d have "d \<in> set (includeDiagnostics e document workspaceRoot i m)" by simp
  from include_finding_reported[OF assms i m this] c r
  show "\<exists>d \<in> set (analyzeDocument e document).
              code d = ''include-not-found'' \<and>
              drange d = VRange (Position i (index m)) (Position i (index m + length (matched m)))"
    by blast
  fix d'
  assume d': "d' \<in> set (analyzeDocument e document)" and c': "code d' = ''circular-include''"
  show "\<not> (startLine d' = i \<and> startColumn d' = index m)"
  proof
    assume at: "startLine d' = i \<and> startColumn d' = index m"
    from include_finding_origin[OF assms circular_is_include[OF d' c']]
    obtain j m' where j: "j < length (split_lines (getText document))"
      and m': "m' \<in> set (matchAll includeRegex (split_lines (getText document) ! j) 0)"
      and in': "d' \<in> set (includeDiagnostics e document workspaceRoot j m')"
      by blast
    from includeDiagnostics_shape[OF in'] at have "j = i" "index m' = index m" by simp_all
    with m m' have "m' = m" by (auto intro: matchAll_index_inj)
    with in' \<open>j = i\<close> d have "d' = d" by simp
    with c c' show False by simp
  qed
next
  fix d
  assume d: "d \<in> set (analyzeDocument e document)" and c: "code d = ''circular-include''"
  from include_finding_origin[OF assms circular_is_include[OF d c]]
  obtain i m where i: "i < length (split_lines (getText document))"
    and m: "m \<in> set (matchAll includeRegex (split_lines (getText document) ! i) 0)"
    and "in": "d \<in> set (includeDiagnostics e document workspaceRoot i m)"
    by blast
  from includeDiagnostics_circular[OF "in" c]
  have ex: "exists (resolveIncludePath e document (grp 1 m) (grp 2 m) workspaceRoot)" by blast
  from includeDiagnostics_shape[OF "in"] ex resolveIncludePath_exists[OF ex] i m
  show "\<exists>i < length (split_lines (getText document)).
                \<exists>m \<in> set (matchAll includeRegex (split_lines (getText document) ! i) 0).
                  startLine d = i \<and> startColumn d = index m \<and>
                  exists (resolveIncludePath e document (grp 1 m) (grp 2 m) workspaceRoot) \<and>
                  existsSync e
                    (expectedPath (resolveIncludePath e document (grp 1 m) (grp 2 m) workspaceRoot))"
    by blast
next
  fix type includePath
  show "circular (resolveIncludePath e document type includePath workspaceRoot) =
             (exists (resolveIncludePath e document type includePath workspaceRoot) \<and>
              fst (checkCircularIncludes_calls e (fileName document)
                    (expectedPath (resolveIncludePath e document type includePath workspaceRoot)) {}))"
    unfolding calls_fst by (rule resolveIncludePath_circular)
next
  fix type includePath f
  assume ex: "exists (resolveIncludePath e document type includePath workspaceRoot)"
    and f: "f \<in> set (snd (checkCircularIncludes_calls e (fileName document)
                     (expectedPath (resolveIncludePath e document type includePath workspaceRoot)) {}))"
  from calls_exist(1)[of e "expectedPath (resolveIncludePath e document type includePath workspaceRoot)"
      "fileName document" "{}"] resolveIncludePath_exists[OF ex] f
  show "existsSync e f" by blast
qed

theorem missing_include_never_circular_witness:
  "\<not> exists (resolveIncludePath lonely (doc ''/w/src/index.html'' missing_text)
        ''virtual'' ''nav.html'' ''/w'')
   \<and> (\<exists>d \<in> set (analyzeDocument lonely (doc ''/w/src/index.html'' missing_text)).
        code d = ''include-not-found'' \<and> drange d = VRange (Position 0 0) (Position 0 35))
   \<and> exists (resolveIncludePath diamond (doc ''/w/src/a.html'' diamond_a) ''file'' ''b.html'' ''/w'')
   \<and> snd (checkCircularIncludes_calls diamond ''/w/src/a.html'' ''/w/src/b.html'' {})
        = [''/w/src/b.html'', ''/w/src/d.html'']
   \<and> list_all (existsSync diamond)
        (snd (checkCircularIncludes_calls diamond ''/w/src/a.html'' ''/w/src/b.html'' {}))"
proof -
  define k where "k = doc ''/w/src/index.html'' missing_text"
  define m where "m = \<lparr>index = 0, matched = missing_text, groups = [(2, ''nav.html''), (1, ''virtual'')]\<rparr>"
  have g: "grp 1 m = ''virtual''" "grp 2 m = ''nav.html''"
    by (simp_all add: m_def grp_def)
  have im: "index m = 0" "length (matched m) = 35"
    by (simp_all add: m_def missing_text_def)
  have w: "getWorkspaceFolder lonely (uri k) = Some ''/w''"
    by (simp add: lonely_def workspace_def)
  have ne: "''/w'' \<noteq> []" by simp
  have i: "0 < length (split_lines (getText k))" unfolding k_def by code_simp
  have mm: "m \<in> set (matchAll includeRegex (split_lines (getText k) ! 0) 0)"
    unfolding k_def m_def by code_simp
  have 1: "\<not> exists (resolveIncludePath lonely k ''virtual'' ''nav.html'' ''/w'')"
    unfolding k_def by code_simp
  note T = missing_include_never_circular[OF w ne]
  from T i mm have "\<not> exists (resolveIncludePath lonely k (grp 1 m) (grp 2 m) ''/w'') \<longrightarrow>
      (\<exists>d \<in> set (analyzeDocument lonely k).
          code d = ''include-not-found'' \<and>
          drange d = VRange (Position 0 (index m)) (Position 0 (index m + length (matched m))))"
    by blast
  with 1 have A: "\<exists>d \<in> set (analyzeDocument lonely k).
          code d = ''include-not-found'' \<and> drange d = VRange (Position 0 0) (Position 0 35)"
    unfolding g im by simp
  define a where "a = doc ''/w/src/a.html'' diamond_a"
  have wa: "getWorkspaceFolder diamond (uri a) = Some ''/w''"
    by (simp add: diamond_def workspace_def)
  have fa: "fileName a = ''/w/src/a.html''" by (simp add: a_def doc_def)
  have 2: "exists (resolveIncludePath diamond a ''file'' ''b.html'' ''/w'')"
    unfolding a_def by code_simp
  have 3: "expectedPath (resolveIncludePath diamond a ''file'' ''b.html'' ''/w'') = ''/w/src/b.html''"
    unfolding a_def by code_simp
  have 4: "snd (checkCircularIncludes_calls diamond ''/w/src/a.html'' ''/w/src/b.html'' {})
        = [''/w/src/b.html'', ''/w/src/d.html'']"
    by code_simp
  from missing_include_never_circular[OF wa ne]
  have "exists (resolveIncludePath diamond a ''file'' ''b.html'' ''/w'') \<longrightarrow>
      (\<forall>f \<in> set (snd (checkCircularIncludes_calls diamond (fileName a)
            (expectedPath (resolveIncludePath diamond a ''file'' ''b.html'' ''/w'')) {})).
         existsSync diamond f)"
    by blast
  with 2 have B: "list_all (existsSync diamond)
        (snd (checkCircularIncludes_calls diamond ''/w/src/a.html'' ''/w/src/b.html'' {}))"
    unfolding list_all_iff fa 3 by blast
  from 1 A 2 4 B show ?thesis unfolding k_def a_def by blast
qed

end
